theory Spec2Isabelle
  imports Main "HOL-Library.AList" "HOL-Library.Multiset"
begin

section \<open>Data model (models/mrcontent.go, controllers/callback_handler.go)\<close>

text \<open>
  Go strings are byte sequences and are modelled as \<open>string\<close>. The structs of the
  program become records that keep the fields read or written by the functions
  modelled below. Where two Go structs share a field name the later record carries a
  prefix (\<open>resultOrientation\<close>, \<open>resultHasAlpha\<close> of \<open>MediaProcessResult\<close>;
  \<open>requestContentID\<close>, \<open>requestOrganizationID\<close> of \<open>TranscodeRequest\<close>).
  The fields \<open>Name\<close>, \<open>RefID\<close>, \<open>RenderType\<close>, \<open>IsActive\<close>, \<open>CreatedAt\<close> and
  \<open>UpdatedAt\<close> of \<open>MRContent\<close> are read by none of these functions and are left out; the
  \<open>updated_at\<close> entry that accompanies every \<open>$set\<close> only touches such a field. The media
  slices of a record are lists: the functions that receive a record only range over
  them and append to them, which does not tell a \<open>nil\<close> slice from an empty one.

  \<open>primitive.ObjectID\<close> belongs to the database driver and is a type parameter \<open>'oid\<close>;
  the driver's \<open>ObjectIDFromHex\<close> and \<open>Hex\<close> are parameters \<open>fromHex\<close> and \<open>toHex\<close> of the
  functions that call them.
\<close>

record Media =
  Key :: string
  Value :: string

record 'oid MRContent =
  ID :: 'oid
  OrganizationID :: 'oid
  Images :: "Media list"
  Videos :: "Media list"
  Objects_3D :: "Media list"
  HasAlpha :: bool
  Orientation :: string
  Status :: string

record MediaProcessResult =
  ContentID :: string
  OriginalURL :: string
  ProcessedURL :: string
  HlsURL :: string
  DashURL :: string
  MediaType :: string
  ProcessingType :: string
  resultOrientation :: string
  resultHasAlpha :: bool
  Success :: bool
  Error :: string
  Timestamp :: int

record TranscodeRequest =
  VideoURL :: string
  ImageURL :: string
  AlphaVideoURL :: string
  requestContentID :: string
  CallbackURL :: string
  CallbackTopic :: string
  requestOrganizationID :: string

text \<open>\<open>strings.HasPrefix(s, prefix)\<close>.\<close>

definition HasPrefix :: "string \<Rightarrow> string \<Rightarrow> bool" where
  "HasPrefix s pre = (length pre \<le> length s \<and> take (length pre) s = pre)"

section \<open>Media classifier: CountMediaTasks (callback_handler.go)\<close>

text \<open>
  The counters are Go \<open>int\<close>s (64 bit). A slice of \<open>Media\<close> (two string headers, 32 bytes
  an element) has fewer than \<open>2^59\<close> elements in a 64-bit address space, so
  \<open>imgCount + 2 * videoCount + 1\<close> stays far below \<open>2^63\<close> and the counters never wrap:
  they are modelled as \<open>int\<close>. Each \<open>for ... range\<close> statement is a fold over its slice,
  the counters being the accumulator.
\<close>

definition CountMediaTasks :: "'oid MRContent \<Rightarrow> int" where
  "CountMediaTasks content =
     (let taskCount = 0;
          imgCount = fold (\<lambda>img imgCount.
                       if HasPrefix (Key img) ''original'' \<and> Value img \<noteq> ''''
                       then imgCount + 1 else imgCount) (Images content) (0::int);
          taskCount = (if imgCount > 0 then taskCount + imgCount else taskCount);
          (videoCount, alphaVideoCount) = fold (\<lambda>video (videoCount, alphaVideoCount).
                       (if HasPrefix (Key video) ''original'' \<and> Value video \<noteq> ''''
                        then videoCount + 1 else videoCount,
                        if Key video = ''mask'' \<or> Key video = ''original_alpha''
                        then alphaVideoCount + 1 else alphaVideoCount))
                     (Videos content) (0::int, 0::int)
      in if videoCount > 0
         then (let taskCount = (if alphaVideoCount > 0 then taskCount + 1 else taskCount)
               in taskCount + videoCount * 2)
         else taskCount)"

text \<open>
  The classifier as the specification words it: an entry is a qualifying original when
  its key starts with \<open>original\<close> and its URL is not empty.
\<close>

definition qualifyingOriginal :: "Media \<Rightarrow> bool" where
  "qualifyingOriginal m = (HasPrefix (Key m) ''original'' \<and> Value m \<noteq> '''')"

definition isMaskEntry :: "Media \<Rightarrow> bool" where
  "isMaskEntry m = (Key m = ''mask'' \<or> Key m = ''original_alpha'')"

definition specTaskCount :: "'oid MRContent \<Rightarrow> int" where
  "specTaskCount content =
     int (length (filter qualifyingOriginal (Images content)))
     + (if \<exists>v \<in> set (Videos content). qualifyingOriginal v
        then 2 * int (length (filter qualifyingOriginal (Videos content)))
             + (if \<exists>v \<in> set (Videos content). isMaskEntry v then 1 else 0)
        else 0)"

section \<open>The store and the tracker table\<close>

text \<open>
  The program's state is the process-wide tracker table \<open>mediaTracker.processingTasks\<close>
  (a Go \<open>map[string]int\<close>), the collection \<open>oms_mrexperiences\<close> of the document store,
  keyed by \<open>_id\<close>, and the messages the broker has accepted. Each function below takes
  the state and returns the new one; a call runs to its end before the next one starts
  (the mutex of the tracker and the interleaving of goroutines are not modelled), and
  log output is not part of the state.

  A store operation can fail on its own account (the 5-second timeout of its context, a
  lost connection). \<open>storeFaults\<close> lists, for the store operations still to come, whether
  each of them fails; when the list is used up the operations succeed. A
  \<open>FindOne(...).Decode\<close> that the store answers fails exactly when no document has the id,
  and an \<open>UpdateOne\<close> rewrites the document with the id when it satisfies the rest of the
  filter. Both return their error as a value, so that every \<open>if err != nil\<close> of the source
  is a branch of the model.
\<close>

datatype error =
    ErrInvalidHex
  | ErrNoDocuments
  | ErrStore
  | ErrPublish
  | ErrNoConnection
  | MissingRequiredFields
  | InvalidContentIDFormat error
  | ErrorFindingContent error
  | ErrorUpdatingContent error

record 'oid world =
  processingTasks :: "string \<rightharpoonup> int"
  collection :: "'oid \<rightharpoonup> 'oid MRContent"
  storeFaults :: "bool list"
  published :: "(string \<times> TranscodeRequest) list"

definition storeFails :: "'oid world \<Rightarrow> bool \<times> 'oid world" where
  "storeFails w =
     (case storeFaults w of
        [] \<Rightarrow> (False, w)
      | failed # faults \<Rightarrow> (failed, w\<lparr>storeFaults := faults\<rparr>))"

definition FindOne :: "'oid world \<Rightarrow> 'oid \<Rightarrow> (error + 'oid MRContent) \<times> 'oid world" where
  "FindOne w oid =
     (case storeFails w of
        (True, w) \<Rightarrow> (Inl ErrStore, w)
      | (False, w) \<Rightarrow>
          (case collection w oid of
             None \<Rightarrow> (Inl ErrNoDocuments, w)
           | Some content \<Rightarrow> (Inr content, w)))"

text \<open>
  \<open>UpdateOne(ctx, filter, {"$set": ...})\<close>: \<open>oid\<close> is the \<open>_id\<close> of the filter, \<open>cond\<close> the rest
  of the filter and \<open>upd\<close> the effect of the \<open>$set\<close> document. The result is the error or
  \<open>ModifiedCount\<close> (every \<open>$set\<close> of the program rewrites \<open>updated_at\<close>, so a matched document
  counts as modified).
\<close>

definition UpdateOne ::
  "'oid world \<Rightarrow> 'oid \<Rightarrow> ('oid MRContent \<Rightarrow> bool) \<Rightarrow> ('oid MRContent \<Rightarrow> 'oid MRContent) \<Rightarrow>
   (error + nat) \<times> 'oid world" where
  "UpdateOne w oid cond upd =
     (case storeFails w of
        (True, w) \<Rightarrow> (Inl ErrStore, w)
      | (False, w) \<Rightarrow>
          (case collection w oid of
             None \<Rightarrow> (Inr 0, w)
           | Some content \<Rightarrow>
               if cond content
               then (Inr 1, w\<lparr>collection := (collection w)(oid \<mapsto> upd content)\<rparr>)
               else (Inr 0, w)))"

text \<open>Go's \<open>int\<close> is 64 bits wide and wraps: the value of an arithmetic result as an \<open>int\<close>.\<close>

definition int64 :: "int \<Rightarrow> int" where
  "int64 x = (x + 2 ^ 63) mod 2 ^ 64 - 2 ^ 63"

section \<open>Task tracker (callback_handler.go)\<close>

definition TrackProcessingStart ::
  "(string \<Rightarrow> 'oid option) \<Rightarrow> string \<Rightarrow> int \<Rightarrow> 'oid world \<Rightarrow> error option \<times> 'oid world" where
  "TrackProcessingStart fromHex contentID taskCount w =
     (if taskCount \<le> 0 then (None, w)
      else
        let w = w\<lparr>processingTasks := (processingTasks w)(contentID \<mapsto> taskCount)\<rparr> in
        case fromHex contentID of
          None \<Rightarrow> (Some ErrInvalidHex, w)
        | Some objContentID \<Rightarrow>
            (case FindOne w objContentID of
               (Inl err, w) \<Rightarrow> (Some err, w)
             | (Inr content, w) \<Rightarrow>
                 if Status content = ''draft'' then
                   (case UpdateOne w objContentID
                           (\<lambda>c. Status c = ''draft'') (\<lambda>c. c\<lparr>Status := ''processing''\<rparr>) of
                      (Inl err, w) \<Rightarrow> (Some err, w)
                    | (Inr modifiedCount, w) \<Rightarrow> (None, w))
                 else (None, w)))"

definition TrackProcessingComplete ::
  "(string \<Rightarrow> 'oid option) \<Rightarrow> string \<Rightarrow> 'oid world \<Rightarrow> error option \<times> 'oid world" where
  "TrackProcessingComplete fromHex contentID w =
     (case processingTasks w contentID of
        None \<Rightarrow> (None, w)
      | Some pending \<Rightarrow>
          let remainingTasks = int64 (pending - 1) in
          if remainingTasks \<le> 0 then
            let w = w\<lparr>processingTasks := (processingTasks w)(contentID := None)\<rparr> in
            case fromHex contentID of
              None \<Rightarrow> (Some ErrInvalidHex, w)
            | Some objContentID \<Rightarrow>
                (case FindOne w objContentID of
                   (Inl err, w) \<Rightarrow> (Some err, w)
                 | (Inr content, w) \<Rightarrow>
                     if Status content = ''processing'' then
                       (case UpdateOne w objContentID
                               (\<lambda>c. Status c = ''processing'') (\<lambda>c. c\<lparr>Status := ''processed''\<rparr>) of
                          (Inl err, w) \<Rightarrow> (Some err, w)
                        | (Inr modifiedCount, w) \<Rightarrow> (None, w))
                     else (None, w))
          else (None, w\<lparr>processingTasks := (processingTasks w)(contentID \<mapsto> remainingTasks)\<rparr>))"

text \<open>\<open>k\<close> calls of \<open>TrackProcessingComplete\<close> for one content id, one after the other.\<close>

definition completions :: "(string \<Rightarrow> 'oid option) \<Rightarrow> string \<Rightarrow> nat \<Rightarrow> 'oid world \<Rightarrow> 'oid world" where
  "completions fromHex contentID k w =
     ((\<lambda>w. snd (TrackProcessingComplete fromHex contentID w)) ^^ k) w"

section \<open>Result ingestor (callback_handler.go)\<close>

text \<open>
  \<open>updateMediaField\<close> overwrites the value at the first entry with the key and returns the
  slice, or appends a new entry. The write goes through to the caller's slice; the
  functions here only use the returned slice, which the model returns.
\<close>

fun updateMediaField :: "Media list \<Rightarrow> string \<Rightarrow> string \<Rightarrow> Media list" where
  "updateMediaField [] key value = [\<lparr>Key = key, Value = value\<rparr>]"
| "updateMediaField (media # existingMedia) key value =
     (if Key media = key then media\<lparr>Value := value\<rparr> # existingMedia
      else media # updateMediaField existingMedia key value)"

text \<open>
  The \<open>$set\<close> document \<open>updateOps\<close> of \<open>processMediaResult\<close> (a \<open>bson.M\<close>, each key assigned at
  most once) as the list of its entries, without \<open>updated_at\<close>; \<open>applySet\<close> is its effect on
  the stored document.
\<close>

datatype fieldUpdate =
    SetOrientation string
  | SetHasAlpha bool
  | SetImages "Media list"
  | SetVideos "Media list"
  | SetObjects3D "Media list"

fun applyField :: "fieldUpdate \<Rightarrow> 'oid MRContent \<Rightarrow> 'oid MRContent" where
  "applyField (SetOrientation s) c = c\<lparr>Orientation := s\<rparr>"
| "applyField (SetHasAlpha b) c = c\<lparr>HasAlpha := b\<rparr>"
| "applyField (SetImages ms) c = c\<lparr>Images := ms\<rparr>"
| "applyField (SetVideos ms) c = c\<lparr>Videos := ms\<rparr>"
| "applyField (SetObjects3D ms) c = c\<lparr>Objects_3D := ms\<rparr>"

definition applySet :: "fieldUpdate list \<Rightarrow> 'oid MRContent \<Rightarrow> 'oid MRContent" where
  "applySet ops c = fold applyField ops c"

definition updateOps :: "MediaProcessResult \<Rightarrow> 'oid MRContent \<Rightarrow> fieldUpdate list" where
  "updateOps result content =
     (if resultOrientation result \<noteq> '''' then [SetOrientation (resultOrientation result)] else [])
     @ (if resultHasAlpha result then [SetHasAlpha True] else [])
     @ (if MediaType result = ''image'' then
          (if ProcessedURL result \<noteq> ''''
           then [SetImages (updateMediaField (Images content) ''compressed'' (ProcessedURL result))]
           else [])
        else if MediaType result = ''video'' then
          (let existingVideos = Videos content in
           if ProcessingType result = ''compressed'' then
             (if ProcessedURL result \<noteq> ''''
              then [SetVideos (updateMediaField existingVideos ''compressed'' (ProcessedURL result))]
              else [])
           else if ProcessingType result = ''hls'' then
             (let updatedVideos = existingVideos;
                  updatedVideos = (if HlsURL result \<noteq> ''''
                                   then updateMediaField updatedVideos ''hls'' (HlsURL result)
                                   else updatedVideos);
                  updatedVideos = (if DashURL result \<noteq> ''''
                                   then updateMediaField updatedVideos ''dash'' (DashURL result)
                                   else updatedVideos)
              in [SetVideos updatedVideos])
           else if ProcessingType result = ''alpha'' then
             (if ProcessedURL result \<noteq> ''''
              then [SetVideos (updateMediaField existingVideos ''alpha'' (ProcessedURL result))]
              else [])
           else if ProcessingType result = ''stitched'' then
             (if ProcessedURL result \<noteq> ''''
              then [SetVideos (updateMediaField existingVideos ''stitched'' (ProcessedURL result))]
              else [])
           else [])
        else if MediaType result = ''object_3d'' then
          (if ProcessedURL result \<noteq> ''''
           then [SetObjects3D (updateMediaField (Objects_3D content) ''processed'' (ProcessedURL result))]
           else [])
        else [])"

text \<open>
  \<open>processMediaResult\<close> returns its error (\<open>None\<close> for \<open>nil\<close>) and the new state. An error of
  \<open>TrackProcessingComplete\<close> is logged and dropped, as in the source. The audit log
  (\<open>utils.LogAudit\<close>) is outside the state.
\<close>

definition processMediaResult ::
  "(string \<Rightarrow> 'oid option) \<Rightarrow> MediaProcessResult \<Rightarrow> 'oid world \<Rightarrow> error option \<times> 'oid world" where
  "processMediaResult fromHex result w =
     (if ContentID result = ''''
         \<or> (ProcessedURL result = '''' \<and> HlsURL result = '''' \<and> DashURL result = '''')
      then (Some MissingRequiredFields, w)
      else if \<not> Success result
      then (None, snd (TrackProcessingComplete fromHex (ContentID result) w))
      else
        case fromHex (ContentID result) of
          None \<Rightarrow> (Some (InvalidContentIDFormat ErrInvalidHex), w)
        | Some contentID \<Rightarrow>
            (case FindOne w contentID of
               (Inl err, w) \<Rightarrow> (Some (ErrorFindingContent err), w)
             | (Inr content, w) \<Rightarrow>
                 (case UpdateOne w contentID (\<lambda>c. True) (applySet (updateOps result content)) of
                    (Inl err, w) \<Rightarrow> (Some (ErrorUpdatingContent err), w)
                  | (Inr modifiedCount, w) \<Rightarrow>
                      (None, snd (TrackProcessingComplete fromHex (ContentID result) w)))))"

text \<open>The results of a list of messages, ingested one after the other.\<close>

definition ingest ::
  "(string \<Rightarrow> 'oid option) \<Rightarrow> MediaProcessResult list \<Rightarrow> 'oid world \<Rightarrow> 'oid world" where
  "ingest fromHex results w = fold (\<lambda>result w. snd (processMediaResult fromHex result w)) results w"

section \<open>Media merger: mergeMediaByKey (mrcontent_controller.go)\<close>

text \<open>
  \<open>mergeMediaByKey\<close> compares \<open>existingMedia\<close> with \<open>nil\<close>, so its slices are modelled with
  the \<open>nil\<close> slice (\<open>None\<close>) apart from an empty one (\<open>Some []\<close>). The Go map \<open>mediaMap\<close> is
  an association list with one pair a key; an assignment \<open>mediaMap[k] = v\<close> is
  \<open>AList.update\<close>. The order in which \<open>range\<close> visits a map is not specified by the language
  and differs from run to run: it is the parameter \<open>rangeOrder\<close>, which a run may
  instantiate with any function that returns a permutation of the pairs.
\<close>

type_synonym 'a slice = "'a list option"

definition len :: "'a slice \<Rightarrow> nat" where
  "len s = (case s of None \<Rightarrow> 0 | Some xs \<Rightarrow> length xs)"

definition elems :: "'a slice \<Rightarrow> 'a list" where
  "elems s = (case s of None \<Rightarrow> [] | Some xs \<Rightarrow> xs)"

definition permutes :: "((string \<times> string) list \<Rightarrow> (string \<times> string) list) \<Rightarrow> bool" where
  "permutes rangeOrder = (\<forall>m. mset (rangeOrder m) = mset m)"

definition mergeMediaByKey ::
  "((string \<times> string) list \<Rightarrow> (string \<times> string) list) \<Rightarrow>
   Media slice \<Rightarrow> Media slice \<Rightarrow> Media slice" where
  "mergeMediaByKey rangeOrder existingMedia newMedia =
     (if len newMedia = 0 then existingMedia
      else if existingMedia = None then newMedia
      else
        let mediaMap = [];
            mediaMap = fold (\<lambda>item mediaMap. AList.update (Key item) (Value item) mediaMap)
                         (elems existingMedia) mediaMap;
            mediaMap = fold (\<lambda>item mediaMap. AList.update (Key item) (Value item) mediaMap)
                         (elems newMedia) mediaMap
        in Some (fold (\<lambda>(k, v) result. result @ [\<lparr>Key = k, Value = v\<rparr>])
                   (rangeOrder mediaMap) []))"

text \<open>
  Reading a keyed media list: the pair of an entry, and the value a key has in a list
  (of its last entry, the one a later assignment to the Go map leaves).
\<close>

definition entry :: "Media \<Rightarrow> string \<times> string" where
  "entry m = (Key m, Value m)"

definition lastValue :: "Media list \<Rightarrow> string \<Rightarrow> string option" where
  "lastValue ms k = map_of (rev (map entry ms)) k"

section \<open>Dispatcher: ProcessMediaForContent (media processor)\<close>

text \<open>
  The broker connection is the parameter \<open>nc\<close>: for a subject and a message it answers
  with the error of \<open>nc.Publish\<close>, or \<open>None\<close> when the broker took the message, which is
  then recorded in \<open>published\<close>. (\<open>json.Marshal\<close> of a struct of strings does not fail.)
  \<open>GetNATS()\<close> is the parameter \<open>getNATS\<close>, an error or a connection. The goroutine that
  \<open>ProcessMediaForContent\<close> starts is run to its end at the place where it is started.
\<close>

type_synonym conn = "string \<Rightarrow> TranscodeRequest \<Rightarrow> error option"

definition publishToNATS ::
  "conn \<Rightarrow> TranscodeRequest \<Rightarrow> string \<Rightarrow> 'oid world \<Rightarrow> error option \<times> 'oid world" where
  "publishToNATS nc data subject w =
     (case nc subject data of
        Some err \<Rightarrow> (Some err, w)
      | None \<Rightarrow> (None, w\<lparr>published := published w @ [(subject, data)]\<rparr>))"

definition processImage :: "conn \<Rightarrow> TranscodeRequest \<Rightarrow> 'oid world \<Rightarrow> 'oid world" where
  "processImage nc request w =
     (if ImageURL request = '''' then w
      else case publishToNATS nc request ''compressimage'' w of
             (Some err, w) \<Rightarrow> w
           | (None, w) \<Rightarrow> w)"

text \<open>The loop \<open>for i := 0; i < 3; i++ { TrackProcessingComplete(contentIDStr) }\<close>.\<close>

function completeFailedTasks ::
  "(string \<Rightarrow> 'oid option) \<Rightarrow> string \<Rightarrow> int \<Rightarrow> 'oid world \<Rightarrow> 'oid world" where
  "completeFailedTasks fromHex contentIDStr i w =
     (if i < 3
      then completeFailedTasks fromHex contentIDStr (i + 1)
             (snd (TrackProcessingComplete fromHex contentIDStr w))
      else w)"
  by pat_completeness auto
termination
  by (relation "measure (\<lambda>(fromHex, contentIDStr, i, w). nat (3 - i))") auto

declare completeFailedTasks.simps [simp del]

text \<open>The first loop of the goroutine: one \<open>processImage\<close> for every qualifying original image.\<close>

definition queueImages ::
  "conn \<Rightarrow> 'oid MRContent \<Rightarrow> string \<Rightarrow> string \<Rightarrow> 'oid world \<Rightarrow> 'oid world" where
  "queueImages nc content contentIDStr orgIDStr w =
     fold (\<lambda>img w.
             if HasPrefix (Key img) ''original'' \<and> Value img \<noteq> ''''
             then processImage nc
                    \<lparr>VideoURL = '''', ImageURL = Value img, AlphaVideoURL = '''',
                     requestContentID = contentIDStr, CallbackURL = '''', CallbackTopic = '''',
                     requestOrganizationID = orgIDStr\<rparr> w
             else w)
          (Images content) w"

text \<open>
  The body of the goroutine. The two searches that \<open>break\<close> at the first match are
  \<open>find\<close>; the loop over the 3D objects only logs.
\<close>

definition queueMediaTasks ::
  "(string \<Rightarrow> 'oid option) \<Rightarrow> ('oid \<Rightarrow> string) \<Rightarrow> conn \<Rightarrow> 'oid MRContent \<Rightarrow> string \<Rightarrow>
   'oid world \<Rightarrow> 'oid world" where
  "queueMediaTasks fromHex toHex nc content contentIDStr w =
     (let orgIDStr = toHex (OrganizationID content);
          w = queueImages nc content contentIDStr orgIDStr w;
          originalVideoURL =
            (case find (\<lambda>video. HasPrefix (Key video) ''original'' \<and> Value video \<noteq> '''')
                    (Videos content) of
               Some video \<Rightarrow> Value video
             | None \<Rightarrow> '''');
          maskVideoURL =
            (case find (\<lambda>video. HasPrefix (Key video) ''mask'' \<and> Value video \<noteq> '''')
                    (Videos content) of
               Some video \<Rightarrow> Value video
             | None \<Rightarrow> '''');
          w = (if originalVideoURL \<noteq> '''' then
                 let baseRequest =
                       \<lparr>VideoURL = originalVideoURL, ImageURL = '''', AlphaVideoURL = '''',
                        requestContentID = contentIDStr, CallbackURL = '''', CallbackTopic = '''',
                        requestOrganizationID = orgIDStr\<rparr>;
                     baseRequest = (if maskVideoURL \<noteq> ''''
                                    then baseRequest\<lparr>AlphaVideoURL := maskVideoURL\<rparr>
                                    else baseRequest)
                 in case publishToNATS nc baseRequest ''createexperience'' w of
                      (Some err, w) \<Rightarrow> completeFailedTasks fromHex contentIDStr 0 w
                    | (None, w) \<Rightarrow> w
               else w)
      in fold (\<lambda>obj w. if HasPrefix (Key obj) ''original'' \<and> Value obj \<noteq> '''' then w else w)
           (Objects_3D content) w)"

definition ProcessMediaForContent ::
  "(string \<Rightarrow> 'oid option) \<Rightarrow> ('oid \<Rightarrow> string) \<Rightarrow> error + conn \<Rightarrow> 'oid MRContent \<Rightarrow>
   'oid world \<Rightarrow> 'oid world" where
  "ProcessMediaForContent fromHex toHex getNATS content w =
     (case getNATS of
        Inl err \<Rightarrow> w
      | Inr nc \<Rightarrow>
          let taskCount = CountMediaTasks content in
          if taskCount \<le> 0 then w
          else
            let contentIDStr = toHex (ID content);
                w = snd (TrackProcessingStart fromHex contentIDStr taskCount w)
            in queueMediaTasks fromHex toHex nc content contentIDStr w)"

section \<open>Example records, states and messages\<close>

definition exampleOneVideo :: "nat MRContent" where
  "exampleOneVideo =
     \<lparr>ID = 1, OrganizationID = 7, Images = [],
      Videos = [\<lparr>Key = ''original'', Value = ''v.mp4''\<rparr>], Objects_3D = [],
      HasAlpha = False, Orientation = [], Status = ''draft''\<rparr>"

definition exampleVideoMask :: "nat MRContent" where
  "exampleVideoMask =
     \<lparr>ID = 1, OrganizationID = 7, Images = [],
      Videos = [\<lparr>Key = ''original'', Value = ''v.mp4''\<rparr>,
                \<lparr>Key = ''mask'', Value = ''m.mp4''\<rparr>],
      Objects_3D = [], HasAlpha = False, Orientation = [], Status = ''draft''\<rparr>"

definition exampleObjectOnly :: "nat MRContent" where
  "exampleObjectOnly =
     \<lparr>ID = 1, OrganizationID = 7, Images = [\<lparr>Key = ''compressed'', Value = ''c.png''\<rparr>],
      Videos = [\<lparr>Key = ''original'', Value = []\<rparr>],
      Objects_3D = [\<lparr>Key = ''original'', Value = ''o.glb''\<rparr>],
      HasAlpha = False, Orientation = [], Status = ''draft''\<rparr>"

definition exampleID :: string where
  "exampleID = ''0123456789abcdef01234567''"

definition exampleFromHex :: "string \<Rightarrow> nat option" where
  "exampleFromHex s = (if s = exampleID then Some 1 else None)"

definition exampleToHex :: "nat \<Rightarrow> string" where
  "exampleToHex oid = (if oid = 1 then exampleID else ''ffffffffffffffffffffffff'')"

definition exampleWorld :: "nat world" where
  "exampleWorld =
     \<lparr>processingTasks = Map.empty, collection = [1 \<mapsto> exampleOneVideo],
      storeFaults = [], published = []\<rparr>"

definition exampleSettledWorld :: "nat world" where
  "exampleSettledWorld =
     \<lparr>processingTasks = [exampleID \<mapsto> 1],
      collection = [1 \<mapsto> exampleOneVideo\<lparr>Status := ''processed''\<rparr>],
      storeFaults = [], published = []\<rparr>"

definition exampleProcessingWorld :: "nat world" where
  "exampleProcessingWorld =
     \<lparr>processingTasks = [exampleID \<mapsto> 2],
      collection = [1 \<mapsto> exampleOneVideo\<lparr>Status := ''processing'', HasAlpha := True\<rparr>],
      storeFaults = [], published = []\<rparr>"

definition exampleFailedResult :: MediaProcessResult where
  "exampleFailedResult =
     \<lparr>ContentID = exampleID, OriginalURL = ''v.mp4'', ProcessedURL = [], HlsURL = [],
      DashURL = [], MediaType = ''video'', ProcessingType = ''compressed'',
      resultOrientation = [], resultHasAlpha = False, Success = False,
      Error = ''transcode failed'', Timestamp = 1700000000\<rparr>"

definition exampleFailedResultWithURL :: MediaProcessResult where
  "exampleFailedResultWithURL = exampleFailedResult\<lparr>ProcessedURL := ''partial.mp4''\<rparr>"

definition exampleCompressedResult :: MediaProcessResult where
  "exampleCompressedResult =
     exampleFailedResult\<lparr>ProcessedURL := ''c.mp4'', Success := True, Error := []\<rparr>"

definition exampleExisting :: "Media slice" where
  "exampleExisting = Some [\<lparr>Key = ''original'', Value = ''a''\<rparr>]"

definition exampleUpdate :: "Media slice" where
  "exampleUpdate = Some [\<lparr>Key = ''compressed'', Value = ''b''\<rparr>]"

definition exampleDuplicateUpdate :: "Media slice" where
  "exampleDuplicateUpdate =
     Some [\<lparr>Key = ''original'', Value = ''a''\<rparr>, \<lparr>Key = ''original'', Value = ''b''\<rparr>]"

definition exampleBrokerDown :: conn where
  "exampleBrokerDown subject request = Some ErrPublish"

definition exampleTwoVideosMask :: "nat MRContent" where
  "exampleTwoVideosMask =
     exampleVideoMask
       \<lparr>Videos := \<lparr>Key = ''original_2'', Value = ''w.mp4''\<rparr> # Videos exampleVideoMask\<rparr>"

definition exampleImageOnly :: "nat MRContent" where
  "exampleImageOnly =
     exampleOneVideo\<lparr>Images := [\<lparr>Key = ''original'', Value = ''i.png''\<rparr>], Videos := []\<rparr>"

text \<open>A state whose store answers the next operation and fails the one after it.\<close>

definition exampleFaultyWorld :: "nat world" where
  "exampleFaultyWorld = exampleProcessingWorld\<lparr>storeFaults := [False, True]\<rparr>"

section \<open>Properties of the classifier\<close>

lemma imgCount_fold:
  "fold (\<lambda>img imgCount.
           if HasPrefix (Key img) ''original'' \<and> Value img \<noteq> ''''
           then imgCount + 1 else imgCount) xs (a::int)
   = a + int (length (filter qualifyingOriginal xs))"
  by (induction xs arbitrary: a) (simp_all add: qualifyingOriginal_def)

lemma videoCount_fold:
  "fold (\<lambda>video (videoCount, alphaVideoCount).
           (if HasPrefix (Key video) ''original'' \<and> Value video \<noteq> ''''
            then videoCount + 1 else videoCount,
            if Key video = ''mask'' \<or> Key video = ''original_alpha''
            then alphaVideoCount + 1 else alphaVideoCount)) xs (a::int, b::int)
   = (a + int (length (filter qualifyingOriginal xs)),
      b + int (length (filter isMaskEntry xs)))"
  by (induction xs arbitrary: a b) (simp_all add: qualifyingOriginal_def isMaskEntry_def)

lemma filter_nonempty_iff: "filter P xs \<noteq> [] \<longleftrightarrow> (\<exists>x \<in> set xs. P x)"
  by (auto simp add: filter_empty_conv)

lemma CountMediaTasks_spec: "CountMediaTasks content = specTaskCount content"
  by (auto simp add: CountMediaTasks_def specTaskCount_def imgCount_fold videoCount_fold
      filter_nonempty_iff Let_def)

text \<open>
  Claim C2. \<open>CountMediaTasks\<close> returns the number of qualifying original images, plus,
  when there is a qualifying original video, twice the number of such videos and one
  more when a video entry with key \<open>mask\<close> or \<open>original_alpha\<close> exists. The 3D objects
  contribute nothing, the result is 0 without qualifying original media, one original
  video without a mask entry yields 2 and one original video with a mask entry yields 3
  (on a record without qualifying images).
\<close>

theorem CountMediaTasks_counts:
  "CountMediaTasks content = specTaskCount content
   \<and> CountMediaTasks (content\<lparr>Objects_3D := objs\<rparr>) = CountMediaTasks content
   \<and> ((\<forall>m \<in> set (Images content). \<not> qualifyingOriginal m)
        \<and> (\<forall>m \<in> set (Videos content). \<not> qualifyingOriginal m)
       \<longrightarrow> CountMediaTasks content = 0)
   \<and> ((\<forall>m \<in> set (Images content). \<not> qualifyingOriginal m)
        \<and> length (filter qualifyingOriginal (Videos content)) = 1
        \<and> (\<forall>m \<in> set (Videos content). \<not> isMaskEntry m)
       \<longrightarrow> CountMediaTasks content = 2)
   \<and> ((\<forall>m \<in> set (Images content). \<not> qualifyingOriginal m)
        \<and> length (filter qualifyingOriginal (Videos content)) = 1
        \<and> (\<exists>m \<in> set (Videos content). isMaskEntry m)
       \<longrightarrow> CountMediaTasks content = 3)"
proof -
  have spec: "\<And>c :: 'a MRContent. CountMediaTasks c = specTaskCount c"
    by (rule CountMediaTasks_spec)
  have objs: "specTaskCount (content\<lparr>Objects_3D := objs\<rparr>) = specTaskCount content"
    by (simp add: specTaskCount_def)
  have none: "(\<forall>m \<in> set (Images content). \<not> qualifyingOriginal m)
        \<and> (\<forall>m \<in> set (Videos content). \<not> qualifyingOriginal m)
       \<longrightarrow> specTaskCount content = 0"
    by (simp add: specTaskCount_def filter_empty_conv)
  have one: "length (filter qualifyingOriginal (Videos content)) = 1
       \<Longrightarrow> \<exists>v \<in> set (Videos content). qualifyingOriginal v"
    using filter_nonempty_iff [of qualifyingOriginal "Videos content"] by auto
  have two: "(\<forall>m \<in> set (Images content). \<not> qualifyingOriginal m)
        \<and> length (filter qualifyingOriginal (Videos content)) = 1
        \<and> (\<forall>m \<in> set (Videos content). \<not> isMaskEntry m)
       \<longrightarrow> specTaskCount content = 2"
    using one by (simp add: specTaskCount_def filter_empty_conv)
  have three: "(\<forall>m \<in> set (Images content). \<not> qualifyingOriginal m)
        \<and> length (filter qualifyingOriginal (Videos content)) = 1
        \<and> (\<exists>m \<in> set (Videos content). isMaskEntry m)
       \<longrightarrow> specTaskCount content = 3"
    using one by (simp add: specTaskCount_def filter_empty_conv)
  show ?thesis using spec objs none two three by simp
qed

theorem CountMediaTasks_counts_witness:
  "filter qualifyingOriginal (Images exampleObjectOnly) = []
   \<and> filter qualifyingOriginal (Videos exampleObjectOnly) = []
   \<and> CountMediaTasks exampleObjectOnly = 0
   \<and> length (filter qualifyingOriginal (Videos exampleOneVideo)) = 1
   \<and> filter isMaskEntry (Videos exampleOneVideo) = []
   \<and> CountMediaTasks exampleOneVideo = 2
   \<and> (\<exists>m \<in> set (Videos exampleVideoMask). isMaskEntry m)
   \<and> CountMediaTasks exampleVideoMask = 3"
  using CountMediaTasks_counts [of exampleObjectOnly "[]"]
    CountMediaTasks_counts [of exampleOneVideo "[]"]
    CountMediaTasks_counts [of exampleVideoMask "[]"]
  by (simp add: exampleObjectOnly_def exampleOneVideo_def exampleVideoMask_def
      qualifyingOriginal_def isMaskEntry_def HasPrefix_def)



section \<open>Properties of the task tracker\<close>

lemma int64_id: "- (2 ^ 63) \<le> x \<Longrightarrow> x < 2 ^ 63 \<Longrightarrow> int64 x = x"
  by (simp add: int64_def)

lemma storeFails_state:
  "processingTasks (snd (storeFails w)) = processingTasks w
   \<and> collection (snd (storeFails w)) = collection w
   \<and> published (snd (storeFails w)) = published w"
  by (simp add: storeFails_def split: list.splits)

lemma storeFails_ok: "storeFaults w = [] \<Longrightarrow> storeFails w = (False, w)"
  by (simp add: storeFails_def)

lemma FindOne_state:
  "processingTasks (snd (FindOne w oid)) = processingTasks w
   \<and> collection (snd (FindOne w oid)) = collection w
   \<and> published (snd (FindOne w oid)) = published w"
  using storeFails_state [of w]
  by (auto simp add: FindOne_def split: prod.splits bool.splits option.splits)

lemma FindOne_found:
  "fst (FindOne w oid) = Inr content \<Longrightarrow> collection w oid = Some content"
  using storeFails_state [of w]
  by (auto simp add: FindOne_def split: prod.splits bool.splits option.splits)

lemma FindOne_ok:
  "storeFaults w = [] \<Longrightarrow> collection w oid = Some content \<Longrightarrow> FindOne w oid = (Inr content, w)"
  by (simp add: FindOne_def storeFails_ok)

lemma UpdateOne_state:
  "processingTasks (snd (UpdateOne w oid cond upd)) = processingTasks w
   \<and> published (snd (UpdateOne w oid cond upd)) = published w
   \<and> (collection (snd (UpdateOne w oid cond upd)) = collection w
      \<or> (\<exists>content. collection w oid = Some content \<and> cond content
            \<and> collection (snd (UpdateOne w oid cond upd)) = (collection w)(oid \<mapsto> upd content)))"
  using storeFails_state [of w]
  by (auto simp add: UpdateOne_def split: prod.splits bool.splits option.splits)

lemma UpdateOne_ok:
  "storeFaults w = [] \<Longrightarrow> collection w oid = Some content \<Longrightarrow> cond content \<Longrightarrow>
   UpdateOne w oid cond upd = (Inr 1, w\<lparr>collection := (collection w)(oid \<mapsto> upd content)\<rparr>)"
  by (simp add: UpdateOne_def storeFails_ok)

lemma UpdateOne_filtered:
  "collection w oid = Some content \<Longrightarrow> \<not> cond content \<Longrightarrow>
   collection (snd (UpdateOne w oid cond upd)) = collection w"
  using UpdateOne_state [of w oid cond upd] by auto

lemma FindOne_table [simp]: "processingTasks (snd (FindOne w oid)) = processingTasks w"
  and FindOne_collection [simp]: "collection (snd (FindOne w oid)) = collection w"
  and FindOne_published [simp]: "published (snd (FindOne w oid)) = published w"
  using FindOne_state [of w oid] by simp_all

lemma UpdateOne_table [simp]:
  "processingTasks (snd (UpdateOne w oid cond upd)) = processingTasks w"
  and UpdateOne_published [simp]: "published (snd (UpdateOne w oid cond upd)) = published w"
  using UpdateOne_state [of w oid cond upd] by simp_all

text \<open>The state after each of the two operations, along the store operations it makes.\<close>

lemma TrackProcessingStart_snd:
  "snd (TrackProcessingStart fromHex cid n w)
     = (if n \<le> 0 then w
        else case fromHex cid of
               None \<Rightarrow> w\<lparr>processingTasks := (processingTasks w)(cid \<mapsto> n)\<rparr>
             | Some oid \<Rightarrow>
                 (let found = FindOne (w\<lparr>processingTasks := (processingTasks w)(cid \<mapsto> n)\<rparr>) oid
                  in case fst found of
                       Inl err \<Rightarrow> snd found
                     | Inr content \<Rightarrow>
                         if Status content = ''draft''
                         then snd (UpdateOne (snd found) oid (\<lambda>c. Status c = ''draft'')
                                     (\<lambda>c. c\<lparr>Status := ''processing''\<rparr>))
                         else snd found))"
  by (auto simp add: TrackProcessingStart_def Let_def split: option.splits prod.splits sum.splits)

lemma TrackProcessingComplete_snd:
  "snd (TrackProcessingComplete fromHex cid w)
     = (case processingTasks w cid of
          None \<Rightarrow> w
        | Some p \<Rightarrow>
            if int64 (p - 1) \<le> 0 then
              (case fromHex cid of
                 None \<Rightarrow> w\<lparr>processingTasks := (processingTasks w)(cid := None)\<rparr>
               | Some oid \<Rightarrow>
                   (let found = FindOne (w\<lparr>processingTasks := (processingTasks w)(cid := None)\<rparr>) oid
                    in case fst found of
                         Inl err \<Rightarrow> snd found
                       | Inr content \<Rightarrow>
                           if Status content = ''processing''
                           then snd (UpdateOne (snd found) oid (\<lambda>c. Status c = ''processing'')
                                       (\<lambda>c. c\<lparr>Status := ''processed''\<rparr>))
                           else snd found))
            else w\<lparr>processingTasks := (processingTasks w)(cid \<mapsto> int64 (p - 1))\<rparr>)"
  by (auto simp add: TrackProcessingComplete_def Let_def split: option.splits prod.splits sum.splits)

text \<open>What the two operations do to the table does not depend on the store.\<close>

lemma TrackProcessingStart_table:
  "0 < n \<Longrightarrow> processingTasks (snd (TrackProcessingStart fromHex cid n w))
     = (processingTasks w)(cid \<mapsto> n)"
  by (simp add: TrackProcessingStart_snd Let_def split: option.splits sum.splits)

lemma TrackProcessingComplete_table:
  "processingTasks (snd (TrackProcessingComplete fromHex cid w))
     = (case processingTasks w cid of
          None \<Rightarrow> processingTasks w
        | Some p \<Rightarrow> if int64 (p - 1) \<le> 0 then (processingTasks w)(cid := None)
                    else (processingTasks w)(cid \<mapsto> int64 (p - 1)))"
  by (simp add: TrackProcessingComplete_snd Let_def split: option.splits sum.splits)

lemma TrackProcessingStart_published:
  "published (snd (TrackProcessingStart fromHex cid n w)) = published w"
  by (simp add: TrackProcessingStart_snd Let_def split: option.splits sum.splits)

lemma TrackProcessingComplete_published:
  "published (snd (TrackProcessingComplete fromHex cid w)) = published w"
  by (simp add: TrackProcessingComplete_snd Let_def split: option.splits sum.splits)

text \<open>What they do to a stored record.\<close>

lemma status_update:
  assumes "collection v oid = Some c"
  shows "collection (snd (UpdateOne v k (\<lambda>c. Status c = old) (\<lambda>c. c\<lparr>Status := new\<rparr>))) oid = Some c
     \<or> (Status c = old
        \<and> collection (snd (UpdateOne v k (\<lambda>c. Status c = old) (\<lambda>c. c\<lparr>Status := new\<rparr>))) oid
            = Some (c\<lparr>Status := new\<rparr>))"
  using assms UpdateOne_state [of v k "\<lambda>c. Status c = old" "\<lambda>c. c\<lparr>Status := new\<rparr>"]
  by (cases "k = oid") auto

lemma status_update_dom:
  "dom (collection (snd (UpdateOne v k (\<lambda>c. Status c = old) (\<lambda>c. c\<lparr>Status := new\<rparr>))))
     = dom (collection v)"
  using UpdateOne_state [of v k "\<lambda>c. Status c = old" "\<lambda>c. c\<lparr>Status := new\<rparr>"]
  by (auto split: if_splits)

lemma TrackProcessingStart_record:
  assumes "collection w oid = Some c"
  shows "collection (snd (TrackProcessingStart fromHex cid n w)) oid = Some c
     \<or> (Status c = ''draft''
        \<and> collection (snd (TrackProcessingStart fromHex cid n w)) oid
            = Some (c\<lparr>Status := ''processing''\<rparr>))"
proof -
  have "collection (snd (UpdateOne v k (\<lambda>c. Status c = ''draft'')
                           (\<lambda>c. c\<lparr>Status := ''processing''\<rparr>))) oid = Some c
     \<or> (Status c = ''draft''
        \<and> collection (snd (UpdateOne v k (\<lambda>c. Status c = ''draft'')
                              (\<lambda>c. c\<lparr>Status := ''processing''\<rparr>))) oid
            = Some (c\<lparr>Status := ''processing''\<rparr>))"
    if "collection v oid = Some c" for v k
    using that by (rule status_update)
  then show ?thesis
    using assms
    by (simp add: TrackProcessingStart_snd Let_def split: option.splits sum.splits)
qed

lemma TrackProcessingComplete_record:
  assumes "collection w oid = Some c"
  shows "collection (snd (TrackProcessingComplete fromHex cid w)) oid = Some c
     \<or> (Status c = ''processing''
        \<and> collection (snd (TrackProcessingComplete fromHex cid w)) oid
            = Some (c\<lparr>Status := ''processed''\<rparr>))"
proof -
  have "collection (snd (UpdateOne v k (\<lambda>c. Status c = ''processing'')
                           (\<lambda>c. c\<lparr>Status := ''processed''\<rparr>))) oid = Some c
     \<or> (Status c = ''processing''
        \<and> collection (snd (UpdateOne v k (\<lambda>c. Status c = ''processing'')
                              (\<lambda>c. c\<lparr>Status := ''processed''\<rparr>))) oid
            = Some (c\<lparr>Status := ''processed''\<rparr>))"
    if "collection v oid = Some c" for v k
    using that by (rule status_update)
  then show ?thesis
    using assms
    by (simp add: TrackProcessingComplete_snd Let_def split: option.splits sum.splits)
qed

lemma TrackProcessingStart_dom:
  "dom (collection (snd (TrackProcessingStart fromHex cid n w))) = dom (collection w)"
  by (simp add: TrackProcessingStart_snd Let_def status_update_dom split: option.splits sum.splits)

lemma TrackProcessingComplete_dom:
  "dom (collection (snd (TrackProcessingComplete fromHex cid w))) = dom (collection w)"
  by (simp add: TrackProcessingComplete_snd Let_def status_update_dom
      split: option.splits sum.splits)

text \<open>The calls when the store answers.\<close>

lemma TrackProcessingStart_ok:
  "storeFaults w = [] \<Longrightarrow> fromHex cid = Some oid \<Longrightarrow> collection w oid = Some c \<Longrightarrow>
   Status c = ''draft'' \<Longrightarrow> 0 < n \<Longrightarrow>
   TrackProcessingStart fromHex cid n w
     = (None, w\<lparr>processingTasks := (processingTasks w)(cid \<mapsto> n),
                 collection := (collection w)(oid \<mapsto> c\<lparr>Status := ''processing''\<rparr>)\<rparr>)"
  by (simp add: TrackProcessingStart_def FindOne_ok UpdateOne_ok Let_def)

lemma TrackProcessingComplete_absent:
  "processingTasks w cid = None \<Longrightarrow> TrackProcessingComplete fromHex cid w = (None, w)"
  by (simp add: TrackProcessingComplete_def)

lemma TrackProcessingComplete_pending:
  "processingTasks w cid = Some p \<Longrightarrow> 1 < p \<Longrightarrow> p < 2 ^ 63 \<Longrightarrow>
   TrackProcessingComplete fromHex cid w
     = (None, w\<lparr>processingTasks := (processingTasks w)(cid \<mapsto> p - 1)\<rparr>)"
  by (simp add: TrackProcessingComplete_def int64_id Let_def)

lemma TrackProcessingComplete_last:
  "storeFaults w = [] \<Longrightarrow> processingTasks w cid = Some 1 \<Longrightarrow> fromHex cid = Some oid \<Longrightarrow>
   collection w oid = Some c \<Longrightarrow> Status c = ''processing'' \<Longrightarrow>
   TrackProcessingComplete fromHex cid w
     = (None, w\<lparr>processingTasks := (processingTasks w)(cid := None),
                 collection := (collection w)(oid \<mapsto> c\<lparr>Status := ''processed''\<rparr>)\<rparr>)"
  by (simp add: TrackProcessingComplete_def int64_def FindOne_ok UpdateOne_ok Let_def)

lemma TrackProcessingComplete_last_table:
  "processingTasks w cid = Some 1 \<Longrightarrow>
   processingTasks (snd (TrackProcessingComplete fromHex cid w)) = (processingTasks w)(cid := None)"
  by (simp add: TrackProcessingComplete_table int64_def)

lemma completions_Suc:
  "completions fromHex cid (Suc k) w
     = snd (TrackProcessingComplete fromHex cid (completions fromHex cid k w))"
  by (simp add: completions_def)

lemma completions_absent:
  "processingTasks w cid = None \<Longrightarrow> completions fromHex cid k w = w"
  by (induction k) (simp_all add: completions_Suc TrackProcessingComplete_absent, simp add: completions_def)

lemma completions_pending:
  "processingTasks w cid = Some p \<Longrightarrow> int k < p \<Longrightarrow> p < 2 ^ 63 \<Longrightarrow>
   completions fromHex cid k w = w\<lparr>processingTasks := (processingTasks w)(cid \<mapsto> p - int k)\<rparr>"
proof (induction k)
  case 0
  then have "(processingTasks w)(cid \<mapsto> p) = processingTasks w" by (simp add: fun_upd_idem)
  then show ?case by (simp add: completions_def)
next
  case (Suc k)
  let ?w = "w\<lparr>processingTasks := (processingTasks w)(cid \<mapsto> p - int k)\<rparr>"
  have less: "int k < p" using Suc.prems(2) by simp
  have eq: "completions fromHex cid k w = ?w"
    by (rule Suc.IH [OF Suc.prems(1) less Suc.prems(3)])
  have arith: "p - int k - 1 = p - int (Suc k)" by simp
  have "TrackProcessingComplete fromHex cid ?w
     = (None, ?w\<lparr>processingTasks := (processingTasks ?w)(cid \<mapsto> (p - int k) - 1)\<rparr>)"
    using Suc.prems by (intro TrackProcessingComplete_pending) simp_all
  also have "?w\<lparr>processingTasks := (processingTasks ?w)(cid \<mapsto> (p - int k) - 1)\<rparr>
     = w\<lparr>processingTasks := (processingTasks w)(cid \<mapsto> p - int (Suc k))\<rparr>"
    unfolding arith by simp
  finally show ?case by (simp only: completions_Suc eq snd_conv)
qed


lemma completions_add:
  "completions fromHex cid (k + j) w = completions fromHex cid k (completions fromHex cid j w)"
  by (simp add: completions_def funpow_add)

lemma completions_exhaust_table:
  assumes "processingTasks w cid = Some p" "0 < p" "p < 2 ^ 63"
  shows "processingTasks (completions fromHex cid (nat p) w) cid = None"
proof -
  obtain j where j: "nat p = Suc j" using assms(2) by (cases "nat p") simp_all
  then have less: "int j < p" by linarith
  let ?w = "w\<lparr>processingTasks := (processingTasks w)(cid \<mapsto> p - int j)\<rparr>"
  have "completions fromHex cid j w = ?w"
    by (rule completions_pending [OF assms(1) less assms(3)])
  moreover have "p - int j = 1" using j by linarith
  ultimately have "completions fromHex cid (nat p) w
      = snd (TrackProcessingComplete fromHex cid (w\<lparr>processingTasks := (processingTasks w)(cid \<mapsto> 1)\<rparr>))"
    by (simp add: j completions_Suc)
  then show ?thesis by (simp add: TrackProcessingComplete_last_table)
qed

text \<open>
  Claim C1. When \<open>TrackProcessingStart(id, n)\<close> with \<open>n > 0\<close> (an \<open>int\<close>, so below \<open>2^63\<close>)
  is called while the persisted record of \<open>id\<close> has status \<open>draft\<close>, and no store operation
  fails, the call succeeds and the status becomes \<open>processing\<close>. After \<open>k < n\<close> calls of \<open>TrackProcessingComplete(id)\<close>
  the tracker entry is \<open>n - k\<close> and the status still \<open>processing\<close>; after exactly \<open>n\<close>
  calls the entry is deleted and the status is \<open>processed\<close>.
\<close>

theorem tracker_lifecycle:
  assumes "fromHex cid = Some oid" and "collection w oid = Some c" and "Status c = ''draft''"
    and "0 < n" and "n < 2 ^ 63" and "storeFaults w = []"
  shows "fst (TrackProcessingStart fromHex cid n w) = None
     \<and> collection (snd (TrackProcessingStart fromHex cid n w)) oid
         = Some (c\<lparr>Status := ''processing''\<rparr>)
     \<and> (\<forall>k. int k < n \<longrightarrow>
           processingTasks (completions fromHex cid k (snd (TrackProcessingStart fromHex cid n w))) cid
             = Some (n - int k)
           \<and> collection (completions fromHex cid k (snd (TrackProcessingStart fromHex cid n w))) oid
             = Some (c\<lparr>Status := ''processing''\<rparr>))
     \<and> processingTasks (completions fromHex cid (nat n) (snd (TrackProcessingStart fromHex cid n w))) cid
         = None
     \<and> collection (completions fromHex cid (nat n) (snd (TrackProcessingStart fromHex cid n w))) oid
         = Some (c\<lparr>Status := ''processed''\<rparr>)"
proof -
  let ?w1 = "snd (TrackProcessingStart fromHex cid n w)"
  let ?c1 = "c\<lparr>Status := ''processing''\<rparr>"
  have start: "TrackProcessingStart fromHex cid n w
      = (None, w\<lparr>processingTasks := (processingTasks w)(cid \<mapsto> n),
                  collection := (collection w)(oid \<mapsto> ?c1)\<rparr>)"
    using assms by (intro TrackProcessingStart_ok)
  have ok: "fst (TrackProcessingStart fromHex cid n w) = None"
    by (simp add: start)
  have tab: "processingTasks ?w1 cid = Some n"
    by (simp add: start)
  have col: "collection ?w1 oid = Some ?c1"
    by (simp add: start)
  have up: "storeFaults ?w1 = []"
    using assms(6) by (simp add: start)
  have pending: "completions fromHex cid k ?w1
      = ?w1\<lparr>processingTasks := (processingTasks ?w1)(cid \<mapsto> n - int k)\<rparr>" if "int k < n" for k
    by (rule completions_pending [OF tab that assms(5)])
  have before: "processingTasks (completions fromHex cid k ?w1) cid = Some (n - int k)
      \<and> collection (completions fromHex cid k ?w1) oid = Some ?c1" if "int k < n" for k
    using col by (simp add: pending [OF that])
  obtain j where j: "nat n = Suc j" using assms(4) by (cases "nat n") simp_all
  then have less: "int j < n" by linarith
  have one: "n - int j = 1" using j by linarith
  let ?wj = "?w1\<lparr>processingTasks := (processingTasks ?w1)(cid \<mapsto> 1)\<rparr>"
  have wj: "completions fromHex cid j ?w1 = ?wj"
    using pending [OF less] by (simp add: one)
  have "TrackProcessingComplete fromHex cid ?wj
      = (None, ?wj\<lparr>processingTasks := (processingTasks ?wj)(cid := None),
                    collection := (collection ?wj)(oid \<mapsto> ?c1\<lparr>Status := ''processed''\<rparr>)\<rparr>)"
    using assms(1) col up by (intro TrackProcessingComplete_last) simp_all
  then have last: "processingTasks (completions fromHex cid (nat n) ?w1) cid = None
      \<and> collection (completions fromHex cid (nat n) ?w1) oid = Some (c\<lparr>Status := ''processed''\<rparr>)"
    by (simp add: j completions_Suc wj)
  show ?thesis using ok col before last by blast
qed

theorem tracker_lifecycle_witness:
  "exampleFromHex exampleID = Some 1 \<and> collection exampleWorld 1 = Some exampleOneVideo
   \<and> Status exampleOneVideo = ''draft'' \<and> storeFaults exampleWorld = []
   \<and> Status (the (collection (snd (TrackProcessingStart exampleFromHex exampleID 2 exampleWorld)) 1))
       = ''processing''
   \<and> processingTasks (completions exampleFromHex exampleID 1
        (snd (TrackProcessingStart exampleFromHex exampleID 2 exampleWorld))) exampleID = Some 1
   \<and> processingTasks (completions exampleFromHex exampleID 2
        (snd (TrackProcessingStart exampleFromHex exampleID 2 exampleWorld))) exampleID = None
   \<and> Status (the (collection (completions exampleFromHex exampleID 2
        (snd (TrackProcessingStart exampleFromHex exampleID 2 exampleWorld))) 1)) = ''processed''"
proof -
  have h1: "exampleFromHex exampleID = Some 1" by (simp add: exampleFromHex_def)
  have h2: "collection exampleWorld 1 = Some exampleOneVideo" by (simp add: exampleWorld_def)
  have h3: "Status exampleOneVideo = ''draft''" by (simp add: exampleOneVideo_def)
  have h4: "(0::int) < 2" and h5: "(2::int) < 2 ^ 63" by simp_all
  have h6: "storeFaults exampleWorld = []" by (simp add: exampleWorld_def)
  note t = tracker_lifecycle [where fromHex = exampleFromHex and cid = exampleID and n = 2,
      OF h1 h2 h3 h4 h5 h6]
  from t have "processingTasks (completions exampleFromHex exampleID 1
        (snd (TrackProcessingStart exampleFromHex exampleID 2 exampleWorld))) exampleID = Some (2 - int 1)"
    by simp
  with t h1 h2 h3 h6 show ?thesis by simp
qed


text \<open>
  Claim C6. For a content id without tracker entry \<open>TrackProcessingComplete\<close> returns no
  error and leaves the whole state (tracker table and store) as it is, however often
  it is called; hence, once the \<open>n\<close> completions registered by \<open>TrackProcessingStart(id, n)\<close>
  have removed the entry, any further completions change nothing. Failing store
  operations do not change this.
\<close>

theorem TrackProcessingComplete_no_entry:
  "(processingTasks w cid = None \<longrightarrow>
      TrackProcessingComplete fromHex cid w = (None, w) \<and> completions fromHex cid k w = w)
   \<and> (0 < n \<and> n < 2 ^ 63 \<longrightarrow>
      completions fromHex cid (k + nat n) (snd (TrackProcessingStart fromHex cid n w))
        = completions fromHex cid (nat n) (snd (TrackProcessingStart fromHex cid n w)))"
proof -
  have absent: "processingTasks w cid = None \<longrightarrow>
      TrackProcessingComplete fromHex cid w = (None, w) \<and> completions fromHex cid k w = w"
    by (simp add: TrackProcessingComplete_absent completions_absent)
  have extra: "completions fromHex cid (k + nat n) (snd (TrackProcessingStart fromHex cid n w))
        = completions fromHex cid (nat n) (snd (TrackProcessingStart fromHex cid n w))"
    if "0 < n" and "n < 2 ^ 63"
  proof -
    let ?w1 = "snd (TrackProcessingStart fromHex cid n w)"
    have "processingTasks ?w1 cid = Some n"
      using that(1) by (simp add: TrackProcessingStart_table)
    then have "processingTasks (completions fromHex cid (nat n) ?w1) cid = None"
      using that by (rule completions_exhaust_table)
    then show ?thesis
      by (simp only: completions_add completions_absent)
  qed
  show ?thesis using absent extra by blast
qed

theorem TrackProcessingComplete_no_entry_witness:
  "processingTasks exampleWorld exampleID = None
   \<and> TrackProcessingComplete exampleFromHex exampleID exampleWorld = (None, exampleWorld)
   \<and> completions exampleFromHex exampleID 3 exampleWorld = exampleWorld
   \<and> completions exampleFromHex exampleID (1 + nat 2)
        (snd (TrackProcessingStart exampleFromHex exampleID 2 exampleWorld))
      = completions exampleFromHex exampleID (nat 2)
        (snd (TrackProcessingStart exampleFromHex exampleID 2 exampleWorld))"
proof -
  have h: "processingTasks exampleWorld exampleID = None" by (simp add: exampleWorld_def)
  have n: "(0::int) < 2 \<and> (2::int) < 2 ^ 63" by simp
  show ?thesis
    using h n TrackProcessingComplete_no_entry
      [where w = exampleWorld and cid = exampleID and fromHex = exampleFromHex and k = 3 and n = 2]
      TrackProcessingComplete_no_entry
      [where w = exampleWorld and cid = exampleID and fromHex = exampleFromHex and k = 1 and n = 2]
    by blast
qed

text \<open>
  Claim C8. \<open>TrackProcessingStart(id, n)\<close> with \<open>n \<le> 0\<close> returns at once and changes
  neither table nor store. With \<open>n > 0\<close> the table afterwards is the old table with \<open>id\<close>
  set to \<open>n\<close>; a second start with \<open>m > 0\<close> leaves exactly the table a single start with
  \<open>m\<close> would have left: \<open>id\<close> is set to \<open>m\<close> and nothing of the first call remains. The
  table is written before the store is asked, so this holds also when the content id is
  no object id or the store fails.
\<close>

theorem TrackProcessingStart_sets_count:
  "(n \<le> 0 \<longrightarrow> TrackProcessingStart fromHex cid n w = (None, w))
   \<and> (0 < n \<longrightarrow>
        processingTasks (snd (TrackProcessingStart fromHex cid n w)) = (processingTasks w)(cid \<mapsto> n))
   \<and> (0 < n \<and> 0 < m \<longrightarrow>
        processingTasks (snd (TrackProcessingStart fromHex cid m
                          (snd (TrackProcessingStart fromHex cid n w))))
          = (processingTasks w)(cid \<mapsto> m)
        \<and> processingTasks (snd (TrackProcessingStart fromHex cid m
                          (snd (TrackProcessingStart fromHex cid n w))))
          = processingTasks (snd (TrackProcessingStart fromHex cid m w)))"
proof -
  have noop: "n \<le> 0 \<longrightarrow> TrackProcessingStart fromHex cid n w = (None, w)"
    by (simp add: TrackProcessingStart_def)
  have twice: "processingTasks (snd (TrackProcessingStart fromHex cid m
                          (snd (TrackProcessingStart fromHex cid n w))))
          = (processingTasks w)(cid \<mapsto> m)" if "0 < n" and "0 < m"
    using that by (simp add: TrackProcessingStart_table)
  show ?thesis using noop twice by (simp add: TrackProcessingStart_table)
qed

theorem TrackProcessingStart_sets_count_witness:
  "TrackProcessingStart exampleFromHex exampleID 0 exampleWorld = (None, exampleWorld)
   \<and> processingTasks (snd (TrackProcessingStart exampleFromHex exampleID 3 exampleWorld)) exampleID
       = Some 3
   \<and> processingTasks (snd (TrackProcessingStart exampleFromHex exampleID 2
        (snd (TrackProcessingStart exampleFromHex exampleID 3 exampleWorld)))) exampleID = Some 2"
  using TrackProcessingStart_sets_count
    [where fromHex = exampleFromHex and cid = exampleID and w = exampleWorld and n = 0 and m = 2]
    TrackProcessingStart_sets_count
    [where fromHex = exampleFromHex and cid = exampleID and w = exampleWorld and n = 3 and m = 2]
  by simp

text \<open>
  Claim C7. On every stored record the two tracker operations either leave the record as
  it is or perform \<open>draft\<close> to \<open>processing\<close> (\<open>TrackProcessingStart\<close>) respectively
  \<open>processing\<close> to \<open>processed\<close> (\<open>TrackProcessingComplete\<close>), through an \<open>UpdateOne\<close> whose
  filter carries the expected prior status, and such an update leaves a record with
  another status alone. A record with any other status is untouched, and no record is
  created or removed. This holds whether the store operations fail or not.
\<close>

theorem tracker_status_transitions:
  assumes "collection w oid = Some c"
  shows "(collection (snd (TrackProcessingStart fromHex cid n w)) oid = Some c
          \<or> (Status c = ''draft''
              \<and> collection (snd (TrackProcessingStart fromHex cid n w)) oid
                  = Some (c\<lparr>Status := ''processing''\<rparr>)))
     \<and> (Status c \<noteq> ''draft'' \<longrightarrow>
          collection (snd (TrackProcessingStart fromHex cid n w)) oid = Some c)
     \<and> (collection (snd (TrackProcessingComplete fromHex cid w)) oid = Some c
          \<or> (Status c = ''processing''
              \<and> collection (snd (TrackProcessingComplete fromHex cid w)) oid
                  = Some (c\<lparr>Status := ''processed''\<rparr>)))
     \<and> (Status c \<noteq> ''processing'' \<longrightarrow>
          collection (snd (TrackProcessingComplete fromHex cid w)) oid = Some c)
     \<and> (\<forall>expected upd. Status c \<noteq> expected \<longrightarrow>
          collection (snd (UpdateOne w oid (\<lambda>d. Status d = expected) upd)) = collection w)
     \<and> dom (collection (snd (TrackProcessingStart fromHex cid n w))) = dom (collection w)
     \<and> dom (collection (snd (TrackProcessingComplete fromHex cid w))) = dom (collection w)"
proof -
  have filtered: "collection (snd (UpdateOne w oid (\<lambda>d. Status d = expected) upd)) = collection w"
    if "Status c \<noteq> expected" for expected upd
    using assms that by (intro UpdateOne_filtered) simp_all
  show ?thesis
    using TrackProcessingStart_record [OF assms, of fromHex cid n]
      TrackProcessingComplete_record [OF assms, of fromHex cid] filtered
      TrackProcessingStart_dom [of fromHex cid n w] TrackProcessingComplete_dom [of fromHex cid w]
    by blast
qed

theorem tracker_status_transitions_witness:
  "collection exampleSettledWorld 1 = Some (exampleOneVideo\<lparr>Status := ''processed''\<rparr>)
   \<and> Status (exampleOneVideo\<lparr>Status := ''processed''\<rparr>) \<noteq> ''draft''
   \<and> Status (exampleOneVideo\<lparr>Status := ''processed''\<rparr>) \<noteq> ''processing''
   \<and> collection (snd (TrackProcessingStart exampleFromHex exampleID 2 exampleSettledWorld)) 1
       = Some (exampleOneVideo\<lparr>Status := ''processed''\<rparr>)
   \<and> collection (snd (TrackProcessingComplete exampleFromHex exampleID exampleSettledWorld)) 1
       = Some (exampleOneVideo\<lparr>Status := ''processed''\<rparr>)"
proof -
  have h: "collection exampleSettledWorld 1 = Some (exampleOneVideo\<lparr>Status := ''processed''\<rparr>)"
    by (simp add: exampleSettledWorld_def)
  show ?thesis
    using h tracker_status_transitions
      [where fromHex = exampleFromHex and cid = exampleID and n = 2, OF h]
    by simp
qed


section \<open>Properties of the result ingestor\<close>

lemma processMediaResult_rejected:
  "ContentID result = ''''
     \<or> (ProcessedURL result = '''' \<and> HlsURL result = '''' \<and> DashURL result = '''') \<Longrightarrow>
   processMediaResult fromHex result w = (Some MissingRequiredFields, w)"
  by (simp add: processMediaResult_def)

lemma processMediaResult_failed_valid:
  "\<not> Success result \<Longrightarrow> ContentID result \<noteq> '''' \<Longrightarrow>
   ProcessedURL result \<noteq> '''' \<or> HlsURL result \<noteq> '''' \<or> DashURL result \<noteq> '''' \<Longrightarrow>
   processMediaResult fromHex result w
     = (None, snd (TrackProcessingComplete fromHex (ContentID result) w))"
  by (auto simp add: processMediaResult_def)

text \<open>
  Claim C3, as amended. A result with \<open>success = false\<close> that passes the validation at the
  head of \<open>processMediaResult\<close> (content id not empty and one of \<open>processed_url\<close>,
  \<open>hls_url\<close>, \<open>dash_url\<close> not empty) makes exactly the call
  \<open>TrackProcessingComplete(contentId)\<close>, so that a pending count above one goes down by
  one, and returns no error. A failed result with an empty content id or with all three
  URL fields empty is rejected with an error before that: neither tracker nor store
  change. In both cases the media fields, \<open>has_alpha\<close> and \<open>orientation\<close> of every stored
  record stay as they are, whether store operations fail or not.
\<close>

theorem processMediaResult_failed:
  assumes "\<not> Success result"
  shows "(ContentID result \<noteq> ''''
          \<and> (ProcessedURL result \<noteq> '''' \<or> HlsURL result \<noteq> '''' \<or> DashURL result \<noteq> '''')
          \<longrightarrow> processMediaResult fromHex result w
                = (None, snd (TrackProcessingComplete fromHex (ContentID result) w))
              \<and> (\<forall>p. processingTasks w (ContentID result) = Some p \<and> 1 < p \<and> p < 2 ^ 63
                   \<longrightarrow> processingTasks (snd (processMediaResult fromHex result w)) (ContentID result)
                         = Some (p - 1)))
     \<and> (ContentID result = ''''
          \<or> (ProcessedURL result = '''' \<and> HlsURL result = '''' \<and> DashURL result = '''')
          \<longrightarrow> processMediaResult fromHex result w = (Some MissingRequiredFields, w))
     \<and> (\<forall>oid c. collection w oid = Some c \<longrightarrow>
           (\<exists>c'. collection (snd (processMediaResult fromHex result w)) oid = Some c'
                \<and> Images c' = Images c \<and> Videos c' = Videos c \<and> Objects_3D c' = Objects_3D c
                \<and> HasAlpha c' = HasAlpha c \<and> Orientation c' = Orientation c))"
proof -
  let ?valid = "ContentID result \<noteq> ''''
          \<and> (ProcessedURL result \<noteq> '''' \<or> HlsURL result \<noteq> '''' \<or> DashURL result \<noteq> '''')"
  have valid: "processMediaResult fromHex result w
      = (None, snd (TrackProcessingComplete fromHex (ContentID result) w))" if "?valid"
    using assms that by (intro processMediaResult_failed_valid) simp_all
  have advance: "processingTasks (snd (processMediaResult fromHex result w)) (ContentID result)
      = Some (p - 1)"
    if "?valid" and "processingTasks w (ContentID result) = Some p" and "1 < p" and "p < 2 ^ 63" for p
    by (simp add: valid [OF that(1)] TrackProcessingComplete_pending [OF that(2) that(3) that(4)])
  have rejected: "processMediaResult fromHex result w = (Some MissingRequiredFields, w)"
    if "\<not> ?valid"
    using that by (intro processMediaResult_rejected) blast
  have media: "\<exists>c'. collection (snd (processMediaResult fromHex result w)) oid = Some c'
                \<and> Images c' = Images c \<and> Videos c' = Videos c \<and> Objects_3D c' = Objects_3D c
                \<and> HasAlpha c' = HasAlpha c \<and> Orientation c' = Orientation c"
    if c: "collection w oid = Some c" for oid c
  proof (cases "?valid")
    case True
    show ?thesis
      using TrackProcessingComplete_record [OF c, of fromHex "ContentID result"]
      by (auto simp add: valid [OF True])
  next
    case False
    then show ?thesis using c by (simp add: rejected)
  qed
  show ?thesis using valid advance rejected media by blast
qed


theorem processMediaResult_failed_witness:
  "\<not> Success exampleFailedResultWithURL
   \<and> processMediaResult exampleFromHex exampleFailedResultWithURL exampleProcessingWorld
       = (None, snd (TrackProcessingComplete exampleFromHex exampleID exampleProcessingWorld))
   \<and> processingTasks exampleProcessingWorld exampleID = Some 2
   \<and> processingTasks (snd (processMediaResult exampleFromHex exampleFailedResultWithURL
         exampleProcessingWorld)) exampleID = Some 1
   \<and> processMediaResult exampleFromHex exampleFailedResult exampleProcessingWorld
       = (Some MissingRequiredFields, exampleProcessingWorld)"
proof -
  have h: "\<not> Success exampleFailedResultWithURL" and h': "\<not> Success exampleFailedResult"
    by (simp_all add: exampleFailedResultWithURL_def exampleFailedResult_def)
  have cid: "ContentID exampleFailedResultWithURL = exampleID"
    and url: "ProcessedURL exampleFailedResultWithURL = ''partial.mp4''"
    by (simp_all add: exampleFailedResultWithURL_def exampleFailedResult_def)
  have tab: "processingTasks exampleProcessingWorld exampleID = Some 2"
    by (simp add: exampleProcessingWorld_def)
  have ne: "exampleID \<noteq> []" by (simp add: exampleID_def)
  note t = processMediaResult_failed
    [where fromHex = exampleFromHex and w = exampleProcessingWorld, OF h]
  note t' = processMediaResult_failed
    [where fromHex = exampleFromHex and w = exampleProcessingWorld, OF h']
  have c: "ContentID exampleFailedResultWithURL \<noteq> []" using ne by (simp add: cid)
  have u: "ProcessedURL exampleFailedResultWithURL \<noteq> []" by (simp add: url)
  from t c u have both:
    "processMediaResult exampleFromHex exampleFailedResultWithURL exampleProcessingWorld
       = (None, snd (TrackProcessingComplete exampleFromHex
                       (ContentID exampleFailedResultWithURL) exampleProcessingWorld))
     \<and> (\<forall>p. processingTasks exampleProcessingWorld (ContentID exampleFailedResultWithURL) = Some p
              \<and> 1 < p \<and> p < 2 ^ 63
          \<longrightarrow> processingTasks (snd (processMediaResult exampleFromHex exampleFailedResultWithURL
                 exampleProcessingWorld)) (ContentID exampleFailedResultWithURL) = Some (p - 1))"
    by blast
  then have valid: "processMediaResult exampleFromHex exampleFailedResultWithURL exampleProcessingWorld
       = (None, snd (TrackProcessingComplete exampleFromHex exampleID exampleProcessingWorld))"
    unfolding cid by blast
  from both have "processingTasks exampleProcessingWorld exampleID = Some 2 \<and> (1::int) < 2
        \<and> (2::int) < 2 ^ 63
      \<longrightarrow> processingTasks (snd (processMediaResult exampleFromHex exampleFailedResultWithURL
             exampleProcessingWorld)) exampleID = Some (2 - 1)"
    unfolding cid by blast
  then have adv: "processingTasks (snd (processMediaResult exampleFromHex exampleFailedResultWithURL
         exampleProcessingWorld)) exampleID = Some 1"
    using tab by simp
  from t' have rej: "processMediaResult exampleFromHex exampleFailedResult exampleProcessingWorld
       = (Some MissingRequiredFields, exampleProcessingWorld)"
    by (simp add: exampleFailedResult_def)
  show ?thesis using h valid tab adv rej by simp
qed

text \<open>
  The claim as stated fails: a failed result whose three URL fields are empty, for a
  content id with two pending tasks, is rejected by the validation and the count stays
  at two, where a call of \<open>TrackProcessingComplete\<close> would have left one.
\<close>

theorem failed_result_without_url_counterexample:
  "\<not> Success exampleFailedResult
   \<and> ContentID exampleFailedResult = exampleID
   \<and> ProcessedURL exampleFailedResult = [] \<and> HlsURL exampleFailedResult = []
   \<and> DashURL exampleFailedResult = []
   \<and> processingTasks exampleProcessingWorld exampleID = Some 2
   \<and> processingTasks (snd (TrackProcessingComplete exampleFromHex exampleID exampleProcessingWorld))
        exampleID = Some 1
   \<and> fst (processMediaResult exampleFromHex exampleFailedResult exampleProcessingWorld)
       = Some MissingRequiredFields
   \<and> processingTasks (snd (processMediaResult exampleFromHex exampleFailedResult
        exampleProcessingWorld)) exampleID = Some 2"
  by (simp add: exampleFailedResult_def exampleProcessingWorld_def processMediaResult_def
      TrackProcessingComplete_def int64_def exampleID_def)

lemma applySet_HasAlpha:
  "\<forall>b. SetHasAlpha b \<in> set ops \<longrightarrow> b \<Longrightarrow> HasAlpha c \<Longrightarrow> HasAlpha (applySet ops c)"
  unfolding applySet_def
proof (induction ops arbitrary: c)
  case Nil
  then show ?case by simp
next
  case (Cons op ops)
  have first: "HasAlpha (applyField op c)"
    using Cons.prems by (cases op) auto
  have rest: "\<forall>b. SetHasAlpha b \<in> set ops \<longrightarrow> b"
    using Cons.prems(1) by auto
  show ?case using Cons.IH [OF rest first] by simp
qed

lemma updateOps_HasAlpha:
  "SetHasAlpha b \<in> set (updateOps result content) \<longleftrightarrow> b \<and> resultHasAlpha result"
  by (auto simp add: updateOps_def Let_def)

lemma processMediaResult_snd:
  "snd (processMediaResult fromHex result w)
     = (if ContentID result = []
           \<or> (ProcessedURL result = [] \<and> HlsURL result = [] \<and> DashURL result = [])
        then w
        else if \<not> Success result
        then snd (TrackProcessingComplete fromHex (ContentID result) w)
        else case fromHex (ContentID result) of
               None \<Rightarrow> w
             | Some contentID \<Rightarrow>
                 (let found = FindOne w contentID
                  in case fst found of
                       Inl err \<Rightarrow> snd found
                     | Inr content \<Rightarrow>
                         (let updated = UpdateOne (snd found) contentID (\<lambda>c. True)
                                          (applySet (updateOps result content))
                          in case fst updated of
                               Inl err \<Rightarrow> snd updated
                             | Inr modifiedCount \<Rightarrow>
                                 snd (TrackProcessingComplete fromHex (ContentID result)
                                        (snd updated)))))"
  by (auto simp add: processMediaResult_def Let_def split: option.splits prod.splits sum.splits)

lemma processMediaResult_HasAlpha:
  assumes "collection w oid = Some c" and "HasAlpha c"
  shows "\<exists>c'. collection (snd (processMediaResult fromHex result w)) oid = Some c' \<and> HasAlpha c'"
proof -
  have track: "\<exists>c'. collection (snd (TrackProcessingComplete fromHex cid v)) oid = Some c' \<and> HasAlpha c'"
    if ex: "\<exists>d. collection v oid = Some d \<and> HasAlpha d" for v and cid :: string
  proof -
    obtain d where d: "collection v oid = Some d" and "HasAlpha d" using ex by blast
    then show ?thesis
      using TrackProcessingComplete_record [OF d, of fromHex cid] by auto
  qed
  have upd: "\<exists>d. collection (snd (UpdateOne v k (\<lambda>c. True) (applySet (updateOps result content)))) oid
               = Some d \<and> HasAlpha d"
    if v: "collection v = collection w" for v k and content :: "'a MRContent"
  proof -
    let ?u = "UpdateOne v k (\<lambda>c. True) (applySet (updateOps result content))"
    consider "collection (snd ?u) = collection v"
      | stored where "collection v k = Some stored"
          and "collection (snd ?u) = (collection v)(k \<mapsto> applySet (updateOps result content) stored)"
      using UpdateOne_state [of v k "\<lambda>c. True" "applySet (updateOps result content)"] by blast
    then show ?thesis
    proof cases
      case 1
      then show ?thesis using assms v by simp
    next
      case 2
      show ?thesis
      proof (cases "k = oid")
        case True
        then have "stored = c" using 2(1) assms(1) v by simp
        then have "HasAlpha (applySet (updateOps result content) stored)"
          using assms(2) by (intro applySet_HasAlpha) (simp_all add: updateOps_HasAlpha)
        then show ?thesis using True 2(2) by simp
      next
        case False
        then show ?thesis using 2(2) assms v by simp
      qed
    qed
  qed
  have here: "\<exists>d. collection w oid = Some d \<and> HasAlpha d" using assms by blast
  show ?thesis
    using here track upd
    by (simp add: processMediaResult_snd Let_def split: option.splits sum.splits)
qed

lemma ingest_HasAlpha:
  "collection w oid = Some c \<Longrightarrow> HasAlpha c \<Longrightarrow>
   \<exists>c'. collection (ingest fromHex results w) oid = Some c' \<and> HasAlpha c'"
proof (induction results arbitrary: w c)
  case Nil
  then show ?case by (simp add: ingest_def)
next
  case (Cons r rs)
  obtain c' where "collection (snd (processMediaResult fromHex r w)) oid = Some c'" and "HasAlpha c'"
    using processMediaResult_HasAlpha [OF Cons.prems] by blast
  then have "\<exists>c''. collection (ingest fromHex rs (snd (processMediaResult fromHex r w))) oid = Some c''
      \<and> HasAlpha c''"
    by (rule Cons.IH)
  then show ?case by (simp add: ingest_def)
qed

text \<open>
  Claim C10. The update set of \<open>processMediaResult\<close> holds an entry for \<open>has_alpha\<close> exactly
  when the result's flag is true, and then with the value true. So a stored record whose
  \<open>has_alpha\<close> is true keeps it true through every sequence of ingested results, whichever
  of them succeed, fail validation or meet a failing store.
\<close>

theorem has_alpha_only_set:
  "(SetHasAlpha b \<in> set (updateOps result content) \<longleftrightarrow> b \<and> resultHasAlpha result)
   \<and> (collection w oid = Some c \<and> HasAlpha c \<longrightarrow>
        (\<exists>c'. collection (ingest fromHex results w) oid = Some c' \<and> HasAlpha c'))"
  using updateOps_HasAlpha [of b result content] ingest_HasAlpha [of w oid c fromHex results]
  by blast


theorem has_alpha_only_set_witness:
  "collection exampleProcessingWorld 1
     = Some (exampleOneVideo\<lparr>Status := ''processing'', HasAlpha := True\<rparr>)
   \<and> HasAlpha (exampleOneVideo\<lparr>Status := ''processing'', HasAlpha := True\<rparr>)
   \<and> \<not> resultHasAlpha exampleCompressedResult
   \<and> HasAlpha (the (collection
         (ingest exampleFromHex [exampleCompressedResult, exampleFailedResultWithURL]
            exampleProcessingWorld) 1))"
proof -
  have h: "collection exampleProcessingWorld 1
     = Some (exampleOneVideo\<lparr>Status := ''processing'', HasAlpha := True\<rparr>)"
    by (simp add: exampleProcessingWorld_def)
  have a: "HasAlpha (exampleOneVideo\<lparr>Status := ''processing'', HasAlpha := True\<rparr>)"
    by simp
  have r: "\<not> resultHasAlpha exampleCompressedResult"
    by (simp add: exampleCompressedResult_def exampleFailedResult_def)
  show ?thesis
    using h a r has_alpha_only_set
      [where w = exampleProcessingWorld and oid = 1 and fromHex = exampleFromHex
         and results = "[exampleCompressedResult, exampleFailedResultWithURL]"
         and c = "exampleOneVideo\<lparr>Status := ''processing'', HasAlpha := True\<rparr>"
         and b = True and result = exampleCompressedResult and content = exampleOneVideo]
    by auto
qed

lemma ingest_example:
  "Videos (the (collection (ingest exampleFromHex [exampleCompressedResult] exampleProcessingWorld) 1))
     = [\<lparr>Key = ''original'', Value = ''v.mp4''\<rparr>, \<lparr>Key = ''compressed'', Value = ''c.mp4''\<rparr>]
   \<and> processingTasks (ingest exampleFromHex [exampleCompressedResult] exampleProcessingWorld) exampleID
     = Some 1"
  by (simp add: ingest_def processMediaResult_def exampleCompressedResult_def
      exampleFailedResult_def exampleProcessingWorld_def exampleFromHex_def exampleID_def
      FindOne_def UpdateOne_def storeFails_def applySet_def updateOps_def exampleOneVideo_def
      TrackProcessingComplete_def int64_def)




lemma ingest_store_fault_example:
  "processMediaResult exampleFromHex exampleCompressedResult exampleFaultyWorld
     = (Some (ErrorUpdatingContent ErrStore), exampleProcessingWorld)"
  by (simp add: processMediaResult_def exampleCompressedResult_def
      exampleFailedResult_def exampleFaultyWorld_def exampleProcessingWorld_def
      exampleFromHex_def exampleID_def FindOne_def UpdateOne_def storeFails_def)


section \<open>Properties of the media merger\<close>

lemma updateMediaField_idem:
  "updateMediaField (updateMediaField l k v) k v = updateMediaField l k v"
  by (induction l) simp_all

lemma assign_distinct:
  "distinct (map fst m0) \<Longrightarrow>
   distinct (map fst (fold (\<lambda>item mediaMap. AList.update (Key item) (Value item) mediaMap) xs m0))"
  by (induction xs arbitrary: m0) (simp_all add: distinct_update)

lemma assign_map_of:
  "map_of (fold (\<lambda>item mediaMap. AList.update (Key item) (Value item) mediaMap) xs m0)
     = map_of m0 ++ lastValue xs"
proof (induction xs arbitrary: m0)
  case Nil
  then show ?case by (simp add: lastValue_def fun_eq_iff)
next
  case (Cons x xs)
  let ?assign = "\<lambda>item mediaMap. AList.update (Key item) (Value item) mediaMap"
  have lv: "lastValue (x # xs) = [Key x \<mapsto> Value x] ++ lastValue xs"
    by (rule ext) (simp add: lastValue_def entry_def map_add_def)
  have aux: "(map_of m0)(Key x \<mapsto> Value x) ++ lastValue xs
      = map_of m0 ++ ([Key x \<mapsto> Value x] ++ lastValue xs)"
    by (rule ext) (simp add: map_add_def split: option.splits)
  have "map_of (fold ?assign (x # xs) m0)
      = map_of (fold ?assign xs (AList.update (Key x) (Value x) m0))"
    by simp
  also have "\<dots> = map_of (AList.update (Key x) (Value x) m0) ++ lastValue xs"
    by (rule Cons.IH)
  also have "\<dots> = (map_of m0)(Key x \<mapsto> Value x) ++ lastValue xs"
    by (simp only: update_conv')
  also have "\<dots> = map_of m0 ++ ([Key x \<mapsto> Value x] ++ lastValue xs)"
    by (rule aux)
  also have "\<dots> = map_of m0 ++ lastValue (x # xs)"
    by (simp only: lv)
  finally show ?case .
qed

lemma collect_result:
  "fold (\<lambda>(k, v) result. result @ [\<lparr>Key = k, Value = v\<rparr>]) ps acc
     = acc @ map (\<lambda>(k, v). \<lparr>Key = k, Value = v\<rparr>) ps"
  by (induction ps arbitrary: acc) (simp_all add: case_prod_beta)

lemma entry_of_pair: "map entry (map (\<lambda>(k, v). \<lparr>Key = k, Value = v\<rparr>) ps) = ps"
  by (induction ps) (simp_all add: entry_def case_prod_beta)

lemma Key_entry: "map Key l = map fst (map entry l)"
  by (simp add: entry_def)

lemma pair_of_entry: "map (\<lambda>(k, v). \<lparr>Key = k, Value = v\<rparr>) (map entry l) = l"
  by (induction l) (simp_all add: entry_def)

lemma lastValue_distinct:
  "distinct (map Key l) \<Longrightarrow> lastValue l = map_of (map entry l)"
proof -
  assume "distinct (map Key l)"
  then have d: "distinct (map fst (map entry l))" by (simp add: Key_entry)
  then have "distinct (map fst (rev (map entry l)))" by (simp add: rev_map [symmetric])
  then have "map_of (rev (map entry l)) = map_of (map entry l)"
    using d by (simp add: map_of_inject_set)
  then show ?thesis by (simp add: lastValue_def fun_eq_iff)
qed

lemma dom_lastValue: "dom (lastValue l) = Key ` set l"
proof -
  have "dom (lastValue l) = dom (map_of (rev (map entry l)))"
    by (simp add: lastValue_def dom_def)
  then show ?thesis by (simp add: dom_map_of_conv_image_fst entry_def image_image)
qed

lemma same_entries:
  assumes "distinct (map Key l1)" and "distinct (map Key l2)"
    and "map_of (map entry l1) = map_of (map entry l2)"
  shows "mset l1 = mset l2"
proof -
  have d1: "distinct (map fst (map entry l1))" and d2: "distinct (map fst (map entry l2))"
    using assms(1,2) by (simp_all add: Key_entry)
  then have e: "set (map entry l1) = set (map entry l2)"
    using assms(3) by (simp add: map_of_inject_set)
  have a: "distinct (map entry l1)"
    using d1 by (rule distinct_map [THEN iffD1, THEN conjunct1])
  have b: "distinct (map entry l2)"
    using d2 by (rule distinct_map [THEN iffD1, THEN conjunct1])
  have "mset (map entry l1) = mset (map entry l2)"
    using set_eq_iff_mset_eq_distinct [OF a b] e by blast
  then have "mset (map (\<lambda>(k, v). \<lparr>Key = k, Value = v\<rparr>) (map entry l1))
      = mset (map (\<lambda>(k, v). \<lparr>Key = k, Value = v\<rparr>) (map entry l2))"
    by (simp only: mset_map)
  then show ?thesis by (simp only: pair_of_entry)
qed

lemma mergeMediaByKey_map_path:
  assumes "permutes rangeOrder" and "nl \<noteq> []"
  shows "\<exists>l. mergeMediaByKey rangeOrder (Some ex) (Some nl) = Some l
           \<and> distinct (map Key l)
           \<and> map_of (map entry l) = lastValue ex ++ lastValue nl"
proof -
  let ?assign = "\<lambda>item mediaMap. AList.update (Key item) (Value item) mediaMap"
  let ?mediaMap = "fold ?assign nl (fold ?assign ex [])"
  let ?l = "map (\<lambda>(k, v). \<lparr>Key = k, Value = v\<rparr>) (rangeOrder ?mediaMap)"
  have res: "mergeMediaByKey rangeOrder (Some ex) (Some nl) = Some ?l"
    using assms(2) by (simp add: mergeMediaByKey_def len_def elems_def collect_result)
  have perm: "mset (rangeOrder ?mediaMap) = mset ?mediaMap"
    using assms(1) by (simp add: permutes_def)
  have dm: "distinct (map fst ?mediaMap)"
    by (intro assign_distinct) simp
  have "mset (map fst (rangeOrder ?mediaMap)) = mset (map fst ?mediaMap)"
    using arg_cong [OF perm, of "image_mset fst"] by (simp only: mset_map)
  then have dr: "distinct (map fst (rangeOrder ?mediaMap))"
    using dm mset_eq_imp_distinct_iff by blast
  have "set (rangeOrder ?mediaMap) = set ?mediaMap"
    using perm by (rule mset_eq_setD)
  then have "map_of (rangeOrder ?mediaMap) = map_of ?mediaMap"
    using dr dm by (simp add: map_of_inject_set)
  also have "\<dots> = lastValue ex ++ lastValue nl"
    by (simp add: assign_map_of)
  finally have m: "map_of (map entry ?l) = lastValue ex ++ lastValue nl"
    by (simp only: entry_of_pair)
  have "distinct (map Key ?l)"
    using dr by (simp only: Key_entry entry_of_pair)
  then show ?thesis using res m by blast
qed


lemma lastValue_absent: "k \<notin> Key ` set l \<Longrightarrow> lastValue l k = None"
  using dom_lastValue [of l] by (auto simp add: dom_def)

lemma lastValue_member:
  "distinct (map Key l) \<Longrightarrow> lastValue l k = Some v \<longleftrightarrow> \<lparr>Key = k, Value = v\<rparr> \<in> set l"
proof -
  assume d: "distinct (map Key l)"
  then have "distinct (map fst (map entry l))" by (simp add: Key_entry)
  then have "map_of (map entry l) k = Some v \<longleftrightarrow> (k, v) \<in> set (map entry l)"
    by (rule map_of_eq_Some_iff)
  moreover have "(k, v) \<in> set (map entry l) \<longleftrightarrow> \<lparr>Key = k, Value = v\<rparr> \<in> set l"
  proof
    assume "(k, v) \<in> set (map entry l)"
    then obtain x where x: "x \<in> set l" and ex: "entry x = (k, v)" by auto
    have "x = \<lparr>Key = k, Value = v\<rparr>" using ex by (cases x) (simp add: entry_def)
    then show "\<lparr>Key = k, Value = v\<rparr> \<in> set l" using x by simp
  next
    assume "\<lparr>Key = k, Value = v\<rparr> \<in> set l"
    then have "entry \<lparr>Key = k, Value = v\<rparr> \<in> set (map entry l)" by simp
    then show "(k, v) \<in> set (map entry l)" by (simp add: entry_def)
  qed
  ultimately show ?thesis by (simp add: lastValue_distinct [OF d])
qed

lemma permutes_rev: "permutes rev"
  by (simp add: permutes_def)

lemma mergeMediaByKey_no_update: "len n = 0 \<Longrightarrow> mergeMediaByKey rangeOrder e n = e"
  by (simp add: mergeMediaByKey_def)

lemma mergeMediaByKey_nil_existing:
  "len n \<noteq> 0 \<Longrightarrow> mergeMediaByKey rangeOrder None n = n"
  by (simp add: mergeMediaByKey_def)

lemma len_elems: "len s = 0 \<longleftrightarrow> elems s = []"
  by (simp add: len_def elems_def split: option.splits)

text \<open>
  Claim C4, as amended. For every existing list, update list and iteration order of the
  map, the key set of the result of \<open>mergeMediaByKey\<close> is the union of the two key sets,
  every key of the update list has the value the update list gives it (of its last entry
  there), and every other key the value the existing list gives it. An empty update list
  returns the existing list as it is and a \<open>nil\<close> existing list returns the update list
  as it is, duplicates included: no two entries of the result share a key when the
  existing list is not \<open>nil\<close> and the update list not empty (the result is then read
  off the map, in the order of its iteration), or when no key occurs twice in either
  list.
\<close>

theorem mergeMediaByKey_merges:
  assumes "permutes rangeOrder"
  shows "Key ` set (elems (mergeMediaByKey rangeOrder e n))
           = Key ` set (elems e) \<union> Key ` set (elems n)
     \<and> (\<forall>k \<in> Key ` set (elems n).
           lastValue (elems (mergeMediaByKey rangeOrder e n)) k = lastValue (elems n) k)
     \<and> (\<forall>k. k \<notin> Key ` set (elems n) \<longrightarrow>
           lastValue (elems (mergeMediaByKey rangeOrder e n)) k = lastValue (elems e) k)
     \<and> ((e \<noteq> None \<and> len n \<noteq> 0)
          \<or> (distinct (map Key (elems e)) \<and> distinct (map Key (elems n)))
         \<longrightarrow> distinct (map Key (elems (mergeMediaByKey rangeOrder e n))))
     \<and> (len n = 0 \<longrightarrow> mergeMediaByKey rangeOrder e n = e)
     \<and> (e = None \<longrightarrow> elems (mergeMediaByKey rangeOrder e n) = elems n)"
proof (cases "len n = 0")
  case True
  then have "\<And>x. mergeMediaByKey rangeOrder x n = x" and "elems n = []"
    by (simp_all add: mergeMediaByKey_no_update len_elems)
  then show ?thesis using True by (simp add: elems_def)
next
  case False
  show ?thesis
  proof (cases e)
    case None
    have "mergeMediaByKey rangeOrder e n = n"
      using False None by (simp add: mergeMediaByKey_nil_existing)
    then show ?thesis
      using False None by (simp add: elems_def lastValue_absent)
  next
    case (Some ex)
    obtain nl where n: "n = Some nl" and nl: "nl \<noteq> []"
      using False by (cases n) (simp_all add: len_def)
    obtain l where res: "mergeMediaByKey rangeOrder (Some ex) (Some nl) = Some l"
      and d: "distinct (map Key l)"
      and m: "map_of (map entry l) = lastValue ex ++ lastValue nl"
      using mergeMediaByKey_map_path [OF assms nl] by blast
    have lv: "lastValue l = lastValue ex ++ lastValue nl"
      using m by (simp add: lastValue_distinct [OF d])
    have "dom (lastValue l) = dom (lastValue ex) \<union> dom (lastValue nl)"
      by (auto simp add: lv)
    then have keys: "Key ` set l = Key ` set ex \<union> Key ` set nl"
      by (simp only: dom_lastValue)
    have new: "lastValue l k = lastValue nl k" if "k \<in> Key ` set nl" for k
    proof -
      have "k \<in> dom (lastValue nl)" using that by (simp only: dom_lastValue)
      then show ?thesis by (simp add: lv map_add_dom_app_simps)
    qed
    have old: "lastValue l k = lastValue ex k" if "k \<notin> Key ` set nl" for k
    proof -
      have "k \<notin> dom (lastValue nl)" using that by (simp only: dom_lastValue) simp
      then show ?thesis by (simp add: lv map_add_dom_app_simps)
    qed
    show ?thesis
      using keys new old d nl by (simp add: Some n res elems_def len_def)
  qed
qed

theorem mergeMediaByKey_merges_witness:
  "permutes rev
   \<and> distinct (map Key (elems (mergeMediaByKey rev exampleExisting exampleUpdate)))
   \<and> lastValue (elems (mergeMediaByKey rev exampleExisting exampleUpdate)) ''compressed'' = Some ''b''
   \<and> lastValue (elems (mergeMediaByKey rev exampleExisting exampleUpdate)) ''original'' = Some ''a''
   \<and> mergeMediaByKey rev exampleExisting (Some []) = exampleExisting
   \<and> elems (mergeMediaByKey rev None exampleUpdate) = elems exampleUpdate"
  using mergeMediaByKey_merges [OF permutes_rev, of exampleExisting exampleUpdate]
    mergeMediaByKey_merges [OF permutes_rev, of exampleExisting "Some []"]
    mergeMediaByKey_merges [OF permutes_rev, of None exampleUpdate]
    permutes_rev
  by (simp add: exampleExisting_def exampleUpdate_def elems_def len_def lastValue_def entry_def)

text \<open>
  The claim as stated fails: a \<open>nil\<close> existing list and an update list that names the key
  \<open>original\<close> twice give back the update list, with its two entries of one key; and for
  an existing list that is empty but not \<open>nil\<close> the same update list does not come back
  unchanged.
\<close>

theorem mergeMediaByKey_duplicates_counterexample:
  "mergeMediaByKey rev None exampleDuplicateUpdate = exampleDuplicateUpdate
   \<and> \<not> distinct (map Key (elems (mergeMediaByKey rev None exampleDuplicateUpdate)))
   \<and> mergeMediaByKey rev (Some []) exampleDuplicateUpdate
       = Some [\<lparr>Key = ''original'', Value = ''b''\<rparr>]
   \<and> mergeMediaByKey rev (Some []) exampleDuplicateUpdate \<noteq> exampleDuplicateUpdate"
  by (simp add: mergeMediaByKey_def exampleDuplicateUpdate_def elems_def len_def)


lemma remerge_map_path:
  assumes "permutes rangeOrder" and "permutes rangeOrder'" and "ul \<noteq> []"
    and first: "mergeMediaByKey rangeOrder e (Some ul) = Some l1"
    and d1: "distinct (map Key l1)"
    and m1: "lastValue l1 = a ++ lastValue ul"
  shows "mset (elems (mergeMediaByKey rangeOrder' (Some l1) (Some ul))) = mset l1
     \<and> distinct (map Key (elems (mergeMediaByKey rangeOrder' (Some l1) (Some ul))))"
proof -
  obtain l2 where res: "mergeMediaByKey rangeOrder' (Some l1) (Some ul) = Some l2"
    and d2: "distinct (map Key l2)"
    and m2: "map_of (map entry l2) = lastValue l1 ++ lastValue ul"
    using mergeMediaByKey_map_path [OF assms(2) assms(3)] by blast
  have "lastValue l1 ++ lastValue ul = lastValue l1"
    unfolding m1 by (rule ext) (simp add: map_add_def split: option.splits)
  then have "map_of (map entry l2) = map_of (map entry l1)"
    using m2 by (simp add: lastValue_distinct [OF d1])
  then have "mset l2 = mset l1"
    using d2 d1 by (intro same_entries)
  then show ?thesis using d2 by (simp add: res elems_def)
qed

lemma remerge:
  assumes "permutes rangeOrder" and "permutes rangeOrder'"
    and "(e \<noteq> None \<and> len u \<noteq> 0)
         \<or> (distinct (map Key (elems e)) \<and> distinct (map Key (elems u)))"
  shows "mset (elems (mergeMediaByKey rangeOrder' (mergeMediaByKey rangeOrder e u) u))
           = mset (elems (mergeMediaByKey rangeOrder e u))
     \<and> distinct (map Key (elems (mergeMediaByKey rangeOrder' (mergeMediaByKey rangeOrder e u) u)))"
proof (cases "len u = 0")
  case True
  then have "\<And>x ro. mergeMediaByKey ro x u = x"
    by (simp add: mergeMediaByKey_no_update)
  then show ?thesis using True assms(3) by simp
next
  case False
  then obtain ul where u: "u = Some ul" and ul: "ul \<noteq> []"
    by (cases u) (simp_all add: len_def)
  show ?thesis
  proof (cases e)
    case None
    then have du: "distinct (map Key ul)"
      using assms(3) by (simp add: u elems_def)
    have first: "mergeMediaByKey rangeOrder e (Some ul) = Some ul"
      using ul by (simp add: None mergeMediaByKey_nil_existing len_def)
    have m: "lastValue ul = Map.empty ++ lastValue ul" by simp
    show ?thesis
      using remerge_map_path [OF assms(1) assms(2) ul first du m]
      by (simp add: u first elems_def)
  next
    case (Some ex)
    obtain l1 where first: "mergeMediaByKey rangeOrder (Some ex) (Some ul) = Some l1"
      and d1: "distinct (map Key l1)"
      and m1: "map_of (map entry l1) = lastValue ex ++ lastValue ul"
      using mergeMediaByKey_map_path [OF assms(1) ul] by blast
    have m: "lastValue l1 = lastValue ex ++ lastValue ul"
      using m1 by (simp add: lastValue_distinct [OF d1])
    show ?thesis
      using remerge_map_path [OF assms(1) assms(2) ul first d1 m]
      by (simp add: Some u first elems_def)
  qed
qed

lemma merge_example:
  assumes "permutes rangeOrder"
  shows "mset (elems (mergeMediaByKey rangeOrder exampleExisting exampleUpdate))
           = mset [\<lparr>Key = ''original'', Value = ''a''\<rparr>, \<lparr>Key = ''compressed'', Value = ''b''\<rparr>]"
proof -
  let ?ex = "[\<lparr>Key = ''original'', Value = ''a''\<rparr>]"
  let ?nl = "[\<lparr>Key = ''compressed'', Value = ''b''\<rparr>]"
  obtain l where res: "mergeMediaByKey rangeOrder (Some ?ex) (Some ?nl) = Some l"
    and d: "distinct (map Key l)"
    and m: "map_of (map entry l) = lastValue ?ex ++ lastValue ?nl"
    using mergeMediaByKey_map_path [OF assms, of ?nl ?ex] by blast
  have "lastValue ?ex ++ lastValue ?nl = map_of (map entry (?ex @ ?nl))"
    by (rule ext) (simp add: lastValue_def entry_def map_add_def)
  then have "mset l = mset (?ex @ ?nl)"
    using d m by (intro same_entries) simp_all
  then show ?thesis
    by (simp add: exampleExisting_def exampleUpdate_def res elems_def)
qed

text \<open>
  Claim C5, as amended. \<open>updateMediaField\<close> applied twice with the same key and value gives
  the list of the first application. Merging the same update list a second time with
  \<open>mergeMediaByKey\<close> gives the entries of the first merge again, in an order that may differ,
  and without duplicate keys, when the existing list is not \<open>nil\<close> and the update list not
  empty, or when no key occurs twice in either list. Merging \<open>[original: a]\<close> with
  \<open>[compressed: b]\<close> yields these two entries in the order in which the run iterates the
  map: \<open>[original: a, compressed: b]\<close> when that is the order of insertion.
\<close>

theorem media_updates_converge:
  assumes "permutes rangeOrder" and "permutes rangeOrder'"
  shows "updateMediaField (updateMediaField l k v) k v = updateMediaField l k v
     \<and> ((e \<noteq> None \<and> len u \<noteq> 0)
          \<or> (distinct (map Key (elems e)) \<and> distinct (map Key (elems u)))
         \<longrightarrow> mset (elems (mergeMediaByKey rangeOrder' (mergeMediaByKey rangeOrder e u) u))
               = mset (elems (mergeMediaByKey rangeOrder e u))
             \<and> distinct (map Key
                 (elems (mergeMediaByKey rangeOrder' (mergeMediaByKey rangeOrder e u) u))))
     \<and> mset (elems (mergeMediaByKey rangeOrder exampleExisting exampleUpdate))
         = mset [\<lparr>Key = ''original'', Value = ''a''\<rparr>, \<lparr>Key = ''compressed'', Value = ''b''\<rparr>]
     \<and> mergeMediaByKey (\<lambda>mediaMap. mediaMap) exampleExisting exampleUpdate
         = Some [\<lparr>Key = ''original'', Value = ''a''\<rparr>, \<lparr>Key = ''compressed'', Value = ''b''\<rparr>]"
proof -
  have inorder: "mergeMediaByKey (\<lambda>mediaMap. mediaMap) exampleExisting exampleUpdate
         = Some [\<lparr>Key = ''original'', Value = ''a''\<rparr>, \<lparr>Key = ''compressed'', Value = ''b''\<rparr>]"
    by (simp add: mergeMediaByKey_def exampleExisting_def exampleUpdate_def len_def elems_def)
  show ?thesis
    using updateMediaField_idem [of l k v] remerge [OF assms, of e u] merge_example [OF assms(1)]
      inorder
    by blast
qed

theorem media_updates_converge_witness:
  "permutes rev \<and> permutes (\<lambda>mediaMap. mediaMap)
   \<and> exampleExisting \<noteq> None \<and> len exampleUpdate \<noteq> 0
   \<and> mset (elems (mergeMediaByKey (\<lambda>mediaMap. mediaMap)
              (mergeMediaByKey rev exampleExisting exampleUpdate) exampleUpdate))
       = mset (elems (mergeMediaByKey rev exampleExisting exampleUpdate))
   \<and> distinct (map Key (elems (mergeMediaByKey (\<lambda>mediaMap. mediaMap)
              (mergeMediaByKey rev exampleExisting exampleUpdate) exampleUpdate)))"
proof -
  have p: "permutes (\<lambda>mediaMap. mediaMap)" by (simp add: permutes_def)
  have h: "exampleExisting \<noteq> None \<and> len exampleUpdate \<noteq> 0"
    by (simp add: exampleExisting_def exampleUpdate_def len_def)
  show ?thesis
    using p h permutes_rev
      media_updates_converge [OF permutes_rev p, of _ _ _ exampleExisting exampleUpdate]
    by blast
qed

text \<open>
  The claim as stated fails: when the map is iterated in the reverse order of insertion,
  merging \<open>[original: a]\<close> with \<open>[compressed: b]\<close> yields \<open>[compressed: b, original: a]\<close>; and
  with a \<open>nil\<close> existing list, an update list with two entries of one key comes back
  unchanged from the first merge and with one entry from the second.
\<close>

theorem merge_order_counterexample:
  "mergeMediaByKey rev exampleExisting exampleUpdate
     = Some [\<lparr>Key = ''compressed'', Value = ''b''\<rparr>, \<lparr>Key = ''original'', Value = ''a''\<rparr>]
   \<and> mergeMediaByKey rev exampleExisting exampleUpdate
     \<noteq> Some [\<lparr>Key = ''original'', Value = ''a''\<rparr>, \<lparr>Key = ''compressed'', Value = ''b''\<rparr>]
   \<and> mergeMediaByKey rev None exampleDuplicateUpdate = exampleDuplicateUpdate
   \<and> mergeMediaByKey rev (mergeMediaByKey rev None exampleDuplicateUpdate) exampleDuplicateUpdate
     = Some [\<lparr>Key = ''original'', Value = ''b''\<rparr>]"
  by (simp add: mergeMediaByKey_def exampleExisting_def exampleUpdate_def
      exampleDuplicateUpdate_def len_def elems_def)


section \<open>Properties of the dispatcher\<close>

lemma completeFailedTasks_three:
  "completeFailedTasks fromHex cid 0 w = completions fromHex cid 3 w"
  by (simp add: completeFailedTasks.simps completions_def numeral_3_eq_3)

lemma processImage_state:
  "processingTasks (processImage nc request w) = processingTasks w
   \<and> collection (processImage nc request w) = collection w"
  by (simp add: processImage_def publishToNATS_def split: option.splits)

lemma images_loop_state:
  "processingTasks (fold (\<lambda>img w. if P img then processImage nc (request img) w else w) imgs w)
     = processingTasks w
   \<and> collection (fold (\<lambda>img w. if P img then processImage nc (request img) w else w) imgs w)
     = collection w"
  by (induction imgs arbitrary: w) (simp_all add: processImage_state)

lemma queueImages_state:
  "processingTasks (queueImages nc content cid org w) = processingTasks w
   \<and> collection (queueImages nc content cid org w) = collection w"
  unfolding queueImages_def by (rule images_loop_state)

lemma objects_loop_skip: "fold (\<lambda>obj w. w) objs w = w"
  by (induction objs) simp_all

lemma find_original_count:
  assumes "find (\<lambda>video. HasPrefix (Key video) ''original'' \<and> Value video \<noteq> []) (Videos content)
             = Some video"
  shows "0 < CountMediaTasks content" and "Value video \<noteq> []"
proof -
  have v: "video \<in> set (Videos content)" and q: "qualifyingOriginal video"
    using assms by (auto simp add: find_Some_iff qualifyingOriginal_def)
  then have "filter qualifyingOriginal (Videos content) \<noteq> []"
    by (auto simp add: filter_empty_conv)
  then obtain n where n: "length (filter qualifyingOriginal (Videos content)) = Suc n"
    by (cases "filter qualifyingOriginal (Videos content)") simp_all
  have ex: "\<exists>v \<in> set (Videos content). qualifyingOriginal v" using v q by blast
  have "0 < specTaskCount content"
    unfolding specTaskCount_def n using ex by simp
  then show "0 < CountMediaTasks content" by (simp add: CountMediaTasks_spec)
  show "Value video \<noteq> []" using q by (simp add: qualifyingOriginal_def)
qed

lemma publishToNATS_failed:
  "nc subject request \<noteq> None \<Longrightarrow>
   \<exists>err. publishToNATS nc request subject v = (Some err, v)"
  by (auto simp add: publishToNATS_def)

lemma publishToNATS_state:
  "processingTasks (snd (publishToNATS nc request subject v)) = processingTasks v
   \<and> collection (snd (publishToNATS nc request subject v)) = collection v"
  by (simp add: publishToNATS_def split: option.splits)

lemma queueMediaTasks_publish_failed:
  assumes "find (\<lambda>video. HasPrefix (Key video) ''original'' \<and> Value video \<noteq> []) (Videos content)
             \<noteq> None"
    and "\<forall>request. nc ''createexperience'' request \<noteq> None"
  shows "queueMediaTasks fromHex toHex nc content cid w
     = completions fromHex cid 3 (queueImages nc content cid (toHex (OrganizationID content)) w)"
proof -
  obtain video where f: "find (\<lambda>video. HasPrefix (Key video) ''original'' \<and> Value video \<noteq> [])
      (Videos content) = Some video"
    using assms(1) by blast
  have ne: "Value video \<noteq> []" by (rule find_original_count(2) [OF f])
  let ?w = "queueImages nc content cid (toHex (OrganizationID content)) w"
  have fail: "\<exists>err. publishToNATS nc request ''createexperience'' ?w = (Some err, ?w)" for request
    using assms(2) by (intro publishToNATS_failed) simp
  have branch: "(case publishToNATS nc request ''createexperience'' ?w of
                   (Some err, w) \<Rightarrow> completeFailedTasks fromHex cid 0 w
                 | (None, w) \<Rightarrow> w) = completions fromHex cid 3 ?w" for request
    using fail [of request] by (auto simp add: completeFailedTasks_three)
  show ?thesis
    by (simp add: queueMediaTasks_def f ne Let_def objects_loop_skip branch)
qed

lemma queueMediaTasks_no_compensation:
  assumes "find (\<lambda>video. HasPrefix (Key video) ''original'' \<and> Value video \<noteq> []) (Videos content)
             = None
           \<or> (\<forall>request. nc ''createexperience'' request = None)"
  shows "processingTasks (queueMediaTasks fromHex toHex nc content cid w) = processingTasks w
     \<and> collection (queueMediaTasks fromHex toHex nc content cid w) = collection w"
proof -
  let ?w = "queueImages nc content cid (toHex (OrganizationID content)) w"
  show ?thesis
  proof (cases "find (\<lambda>video. HasPrefix (Key video) ''original'' \<and> Value video \<noteq> [])
      (Videos content)")
    case None
    then show ?thesis
      by (simp add: queueMediaTasks_def Let_def objects_loop_skip queueImages_state)
  next
    case (Some video)
    then have ok: "nc ''createexperience'' request = None" for request
      using assms by simp
    have branch: "(case publishToNATS nc request ''createexperience'' ?w of
                   (Some err, w) \<Rightarrow> completeFailedTasks fromHex cid 0 w
                 | (None, w) \<Rightarrow> w) = snd (publishToNATS nc request ''createexperience'' ?w)"
      for request
      by (simp add: publishToNATS_def ok)
    show ?thesis
      by (simp add: queueMediaTasks_def Some Let_def objects_loop_skip branch publishToNATS_state
          queueImages_state)
  qed
qed


text \<open>
  Claim C9. When the record has a qualifying original video and the publish to
  \<open>createexperience\<close> fails, \<open>ProcessMediaForContent\<close> ends in the state that three calls of
  \<open>TrackProcessingComplete\<close> for the content id leave after the start of the tracking and
  the publishing of the images, whatever the task count of the record is: the loop of the
  failure branch is exactly three such calls. The image loop never changes tracker or
  store, whether its publishes fail or not, no request is published for 3D objects, and
  without a failed \<open>createexperience\<close> publish the tracker and the store are as
  \<open>TrackProcessingStart\<close> left them.
\<close>

theorem video_publish_failure_compensation:
  "(find (\<lambda>video. HasPrefix (Key video) ''original'' \<and> Value video \<noteq> []) (Videos content) \<noteq> None
      \<and> (\<forall>request. nc ''createexperience'' request \<noteq> None)
    \<longrightarrow> ProcessMediaForContent fromHex toHex (Inr nc) content w
          = completions fromHex (toHex (ID content)) 3
              (queueImages nc content (toHex (ID content)) (toHex (OrganizationID content))
                 (snd (TrackProcessingStart fromHex (toHex (ID content))
                         (CountMediaTasks content) w))))
   \<and> completeFailedTasks fromHex cid 0 w = completions fromHex cid 3 w
   \<and> processingTasks (queueImages nc content cid org w) = processingTasks w
   \<and> collection (queueImages nc content cid org w) = collection w
   \<and> (find (\<lambda>video. HasPrefix (Key video) ''original'' \<and> Value video \<noteq> []) (Videos content) = None
        \<or> (\<forall>request. nc ''createexperience'' request = None)
      \<longrightarrow> processingTasks (ProcessMediaForContent fromHex toHex (Inr nc) content w)
            = processingTasks (snd (TrackProcessingStart fromHex (toHex (ID content))
                                      (CountMediaTasks content) w))
          \<and> collection (ProcessMediaForContent fromHex toHex (Inr nc) content w)
            = collection (snd (TrackProcessingStart fromHex (toHex (ID content))
                                 (CountMediaTasks content) w)))"
proof -
  let ?orig = "find (\<lambda>video. HasPrefix (Key video) ''original'' \<and> Value video \<noteq> []) (Videos content)"
  let ?start = "snd (TrackProcessingStart fromHex (toHex (ID content)) (CountMediaTasks content) w)"
  have failed: "ProcessMediaForContent fromHex toHex (Inr nc) content w
          = completions fromHex (toHex (ID content)) 3
              (queueImages nc content (toHex (ID content)) (toHex (OrganizationID content)) ?start)"
    if orig: "?orig \<noteq> None" and down: "\<forall>request. nc ''createexperience'' request \<noteq> None"
  proof -
    obtain video where "?orig = Some video" using orig by blast
    then have "0 < CountMediaTasks content" by (rule find_original_count(1))
    then show ?thesis
      by (simp add: ProcessMediaForContent_def Let_def queueMediaTasks_publish_failed [where nc = nc and content = content, OF orig down])
  qed
  have other: "processingTasks (ProcessMediaForContent fromHex toHex (Inr nc) content w)
            = processingTasks ?start
          \<and> collection (ProcessMediaForContent fromHex toHex (Inr nc) content w)
            = collection ?start"
    if "?orig = None \<or> (\<forall>request. nc ''createexperience'' request = None)"
  proof (cases "CountMediaTasks content \<le> 0")
    case True
    then show ?thesis
      by (simp add: ProcessMediaForContent_def TrackProcessingStart_def)
  next
    case False
    then show ?thesis
      by (simp add: ProcessMediaForContent_def Let_def queueMediaTasks_no_compensation [where nc = nc and content = content, OF that])
  qed
  show ?thesis
    using failed other completeFailedTasks_three [of fromHex cid w]
      queueImages_state [of nc content cid org w]
    by blast
qed

theorem video_publish_failure_compensation_witness:
  "find (\<lambda>video. HasPrefix (Key video) ''original'' \<and> Value video \<noteq> []) (Videos exampleOneVideo)
     \<noteq> None
   \<and> (\<forall>request. exampleBrokerDown ''createexperience'' request \<noteq> None)
   \<and> CountMediaTasks exampleOneVideo = 2
   \<and> ProcessMediaForContent exampleFromHex exampleToHex (Inr exampleBrokerDown) exampleOneVideo
        exampleWorld
      = completions exampleFromHex exampleID 3
          (queueImages exampleBrokerDown exampleOneVideo exampleID (exampleToHex 7)
             (snd (TrackProcessingStart exampleFromHex exampleID 2 exampleWorld)))
   \<and> find (\<lambda>video. HasPrefix (Key video) ''original'' \<and> Value video \<noteq> []) (Videos exampleImageOnly)
     = None
   \<and> processingTasks (ProcessMediaForContent exampleFromHex exampleToHex (Inr exampleBrokerDown)
        exampleImageOnly exampleWorld)
      = processingTasks (snd (TrackProcessingStart exampleFromHex exampleID 1 exampleWorld))"
proof -
  have v: "find (\<lambda>video. HasPrefix (Key video) ''original'' \<and> Value video \<noteq> [])
      (Videos exampleOneVideo) \<noteq> None"
    by (simp add: exampleOneVideo_def HasPrefix_def)
  have i: "find (\<lambda>video. HasPrefix (Key video) ''original'' \<and> Value video \<noteq> [])
      (Videos exampleImageOnly) = None"
    by (simp add: exampleImageOnly_def exampleOneVideo_def)
  have down: "\<forall>request. exampleBrokerDown ''createexperience'' request \<noteq> None"
    by (simp add: exampleBrokerDown_def)
  have c2: "CountMediaTasks exampleOneVideo = 2"
    by (simp add: CountMediaTasks_def exampleOneVideo_def HasPrefix_def)
  have c1: "CountMediaTasks exampleImageOnly = 1"
    by (simp add: CountMediaTasks_def exampleImageOnly_def exampleOneVideo_def HasPrefix_def)
  have id: "exampleToHex (ID exampleOneVideo) = exampleID"
    "exampleToHex (ID exampleImageOnly) = exampleID"
    "OrganizationID exampleOneVideo = 7"
    by (simp_all add: exampleToHex_def exampleOneVideo_def exampleImageOnly_def)
  show ?thesis
    using v i down c2
      video_publish_failure_compensation [where content = exampleOneVideo
        and nc = exampleBrokerDown and fromHex = exampleFromHex and toHex = exampleToHex
        and w = exampleWorld]
      video_publish_failure_compensation [where content = exampleImageOnly
        and nc = exampleBrokerDown and fromHex = exampleFromHex and toHex = exampleToHex
        and w = exampleWorld]
    by (simp add: id c1)
qed

lemma compensation_examples:
  "processingTasks (ProcessMediaForContent exampleFromHex exampleToHex (Inr exampleBrokerDown)
      exampleOneVideo exampleWorld) exampleID = None
   \<and> processingTasks (ProcessMediaForContent exampleFromHex exampleToHex (Inr exampleBrokerDown)
      exampleVideoMask exampleWorld) exampleID = None
   \<and> processingTasks (ProcessMediaForContent exampleFromHex exampleToHex (Inr exampleBrokerDown)
      exampleTwoVideosMask exampleWorld) exampleID = Some 2
   \<and> processingTasks (ProcessMediaForContent exampleFromHex exampleToHex (Inr exampleBrokerDown)
      exampleImageOnly exampleWorld) exampleID = Some 1"
  by (simp add: ProcessMediaForContent_def queueMediaTasks_def queueImages_def processImage_def
      publishToNATS_def exampleBrokerDown_def CountMediaTasks_def HasPrefix_def
      exampleOneVideo_def exampleVideoMask_def exampleTwoVideosMask_def exampleImageOnly_def
      exampleToHex_def exampleFromHex_def exampleWorld_def exampleID_def
      TrackProcessingStart_def TrackProcessingComplete_def FindOne_def UpdateOne_def
      storeFails_def int64_def completeFailedTasks.simps Let_def)

end
